theory Spec2Isabelle
  imports Main "HOL-Library.AList" "HOL-Library.Sublist" "HOL-Library.Char_ord"
    "HOL-Library.List_Lexorder"
begin

section \<open>The MXNet easyblock (easybuild/easyblocks/m/mxnet.py)\<close>

text \<open>
  The easyblock \<open>EB_MXNet\<close> is a subclass of \<open>MakeCp\<close>. Its methods mutate the
  easyblock object (\<open>self.cfg\<close>, \<open>self.mxnet_src_dir\<close>), the build directory on disk
  and call collaborators of the framework (the parent class, the two extension
  installers, the module generator). The embedding passes an explicit state, returns
  every exception as a value together with the state reached when it was raised, and
  records each call of a collaborator as an event.

  Python 3 is assumed: \<open>IOError\<close> is an alias of \<open>OSError\<close>, every failure of a
  filesystem call is an \<open>OSError\<close>, and comparing an \<open>int\<close> with a \<open>str\<close> raises
  \<open>TypeError\<close>.
\<close>

subsection \<open>Exceptions, paths, events\<close>

text \<open>A path is the list of its components below the build directory (or, for
  \<open>make_module_extra\<close>, below the installation directory); \<open>os.path.join\<close> appends a
  component.\<close>

type_synonym path = "string list"

text \<open>\<open>EasyBuildError(fmt, *args)\<close> keeps its format string and its arguments.\<close>

datatype fmtarg = PathArg path | PathsArg "path list" | ErrArg string

datatype exn =
    EasyBuildError string "fmtarg list"
  | OSError string
  | TypeError
  | IndexError
  | AttributeError
  | UnboundLocalError string

text \<open>Calls of collaborators that live outside this file.\<close>

datatype event =
    SuperConfigure "string list"
  | ChangeDir path
  | PyPrerun | PyRun | PyPostrun
  | Mkdir string
  | Symlink string string
  | WriteFile string string
  | RPrerun | RRun | RPostrun
  | RunCmd string
  | SuperSanity "string list" "string list"
  | LoadFakeModule
  | PySanity
  | RSanity string
  | CleanUpFakeModule

subsection \<open>Strings\<close>

definition dquote :: char where
  "dquote = CHR 0x22"

text \<open>\<open>'%s' % v\<close> for a value that may be \<open>None\<close>.\<close>

definition pystr :: "string option \<Rightarrow> string" where
  "pystr v = (case v of None \<Rightarrow> ''None'' | Some s \<Rightarrow> s)"

text \<open>\<open>'%s="%s"' % (var, value)\<close>\<close>

definition fmt_assign :: "string \<Rightarrow> string option \<Rightarrow> string" where
  "fmt_assign var v = var @ ''='' @ [dquote] @ pystr v @ [dquote]"

text \<open>\<open>s.rpartition(sep)\<close> for a one-character separator: split at the last occurrence;
  without an occurrence the result is \<open>('', '', s)\<close>.\<close>

definition rpartition :: "char \<Rightarrow> string \<Rightarrow> string \<times> string \<times> string" where
  "rpartition sep s =
     (if sep \<in> set s
      then (rev (tl (dropWhile (\<lambda>x. x \<noteq> sep) (rev s))), [sep],
            rev (takeWhile (\<lambda>x. x \<noteq> sep) (rev s)))
      else ('''', '''', s))"

text \<open>\<open>s.replace(old, new)\<close>: every non-overlapping occurrence, from the left.\<close>

function str_replace :: "string \<Rightarrow> string \<Rightarrow> string \<Rightarrow> string" where
  "str_replace old new [] = (if old = [] then new else [])"
| "str_replace old new (c # cs) =
     (if old = [] then new @ c # str_replace old new cs
      else if prefix old (c # cs) then new @ str_replace old new (drop (length old) (c # cs))
      else c # str_replace old new cs)"
  by pat_completeness auto
termination
  by (relation "measure (\<lambda>(old, new, s). length s)") auto

subsection \<open>Versions: \<open>distutils.version.LooseVersion\<close>\<close>

text \<open>
  A version string is cut into components by the pattern \<open>(\d+ | [a-z]+ | \.)\<close>: runs
  of digits become integers, runs of lower-case letters and the text between two matches
  stay strings, dots are dropped. Two versions compare as the lists of their components
  do; a list comparison that meets an integer and a string raises \<open>TypeError\<close>. A
  \<open>LooseVersion\<close> built from \<open>None\<close> or from the empty string has no component
  list, and comparing it raises \<open>AttributeError\<close>.
\<close>

datatype vcomp = VInt nat | VStr string

definition is_digit :: "char \<Rightarrow> bool" where
  "is_digit c = (c \<in> set ''0123456789'')"

definition is_lower :: "char \<Rightarrow> bool" where
  "is_lower c = (c \<in> set ''abcdefghijklmnopqrstuvwxyz'')"

definition is_other :: "char \<Rightarrow> bool" where
  "is_other c = (\<not> is_digit c \<and> \<not> is_lower c \<and> c \<noteq> CHR ''.'')"

definition digit_val :: "char \<Rightarrow> nat" where
  "digit_val c = of_char c - 48"

definition int_of_digits :: "string \<Rightarrow> nat" where
  "int_of_digits ds = foldl (\<lambda>a c. 10 * a + digit_val c) 0 ds"

function version_components :: "string \<Rightarrow> vcomp list" where
  "version_components [] = []"
| "version_components (c # cs) =
     (if is_digit c
        then VInt (int_of_digits (c # takeWhile is_digit cs))
               # version_components (dropWhile is_digit cs)
      else if is_lower c
        then VStr (c # takeWhile is_lower cs) # version_components (dropWhile is_lower cs)
      else if c = CHR ''.''
        then version_components cs
      else VStr (c # takeWhile is_other cs) # version_components (dropWhile is_other cs))"
  by pat_completeness auto
termination
  by (relation "measure length") (auto simp: length_dropWhile_le less_Suc_eq_le)

text \<open>\<open>xs < ys\<close> on Python lists of components.\<close>

fun vlist_lt :: "vcomp list \<Rightarrow> vcomp list \<Rightarrow> exn + bool" where
  "vlist_lt [] [] = Inr False"
| "vlist_lt [] (y # ys) = Inr True"
| "vlist_lt (x # xs) [] = Inr False"
| "vlist_lt (x # xs) (y # ys) =
     (if x = y then vlist_lt xs ys
      else case (x, y) of
             (VInt a, VInt b) \<Rightarrow> Inr (a < b)
           | (VStr a, VStr b) \<Rightarrow> Inr (a < b)
           | _ \<Rightarrow> Inl TypeError)"

text \<open>\<open>LooseVersion(v) >= LooseVersion(w)\<close>, \<open>w\<close> a non-empty literal.\<close>

definition loose_version_ge :: "string option \<Rightarrow> string \<Rightarrow> exn + bool" where
  "loose_version_ge v w =
     (case v of
        None \<Rightarrow> Inl AttributeError
      | Some s \<Rightarrow>
          if s = [] then Inl AttributeError
          else let a = version_components s; b = version_components w in
               if a = b then Inr True
               else (case vlist_lt a b of Inl e \<Rightarrow> Inl e | Inr lt \<Rightarrow> Inr (\<not> lt)))"

subsection \<open>The easyblock's state and its surroundings\<close>

text \<open>A node of the directory tree; the entries of a directory are kept in the order
  in which \<open>os.listdir\<close> reports them.\<close>

datatype node = File | Dir "(string \<times> node) list"

text \<open>An element of the toolchain definition: \<open>None\<close> or a list of module names.\<close>

datatype tc_elem = TcNone | TcList "string option list"

record state =
  build_root :: "(string \<times> node) list"
  mxnet_src_dir :: "string option"
  buildopts :: "string list"
  cfg_install_r_ext :: bool
  events :: "event list"

text \<open>What the methods read from outside: the process environment, the toolchain
  definition, the versions and roots of loaded software, and the faults the operating
  system injects into filesystem calls.\<close>

datatype fsop = OpRename path path | OpRmtree path | OpMove path path

record env =
  environ :: "string \<Rightarrow> string option"
  toolchain_definition :: "string \<Rightarrow> tc_elem option"
  software_version :: "string \<Rightarrow> string option"
  software_root :: "string \<Rightarrow> string option"
  fault :: "fsop \<Rightarrow> string option"

text \<open>\<open>self.cfg.update('buildopts', value)\<close> appends to the build options.\<close>

definition cfg_update_buildopts :: "string \<Rightarrow> state \<Rightarrow> state" where
  "cfg_update_buildopts v st = st\<lparr>buildopts := buildopts st @ [v]\<rparr>"

subsection \<open>\<open>configure_step\<close>\<close>

text \<open>\<open>self.toolchain.definition().get('BLAS', None)[0]\<close>: subscripting \<open>None\<close> raises
  \<open>TypeError\<close>, subscripting an empty list raises \<open>IndexError\<close>.\<close>

definition toolchain_blas :: "env \<Rightarrow> exn + string option" where
  "toolchain_blas e =
     (case toolchain_definition e ''BLAS'' of
        None \<Rightarrow> Inl TypeError
      | Some TcNone \<Rightarrow> Inl TypeError
      | Some (TcList []) \<Rightarrow> Inl IndexError
      | Some (TcList (x # xs)) \<Rightarrow> Inr x)"

text \<open>The four base variables, in the order of the loop.\<close>

definition base_vars :: "(string \<times> string) list" where
  "base_vars = [(''CC'', ''CC''), (''CXX'', ''CXX''), (''ADD_CFLAGS'', ''CFLAGS''),
                (''ADD_LDFLAGS'', ''LDFLAGS'')]"

definition add_base_vars :: "env \<Rightarrow> state \<Rightarrow> state" where
  "add_base_vars e st =
     foldl (\<lambda>s (var, env_var). cfg_update_buildopts (fmt_assign var (environ e env_var)) s)
       st base_vars"

text \<open>
  The \<open>if\<close>/\<open>elif\<close> chain over the backend. Its result is the binding of the local
  variable \<open>blas\<close> (\<open>None\<close> when no branch assigns it) and the state; the last branch
  raises.
\<close>

definition select_blas :: "env \<Rightarrow> string option \<Rightarrow> state \<Rightarrow> exn option \<times> string option \<times> state" where
  "select_blas e tb st =
     (if tb = Some ''imkl'' then
        (case loose_version_ge (software_version e ''imkl'') ''17'' of
           Inl x \<Rightarrow> (Some x, None, st)
         | Inr ge \<Rightarrow>
             let st1 = (if ge then cfg_update_buildopts ''USE_MKL2017=1'' st else st);
                 st2 = cfg_update_buildopts (fmt_assign ''MKLML_ROOT'' (environ e ''MKLROOT'')) st1
             in (None, Some ''mkl'', st2))
      else if tb \<in> {Some ''ACML'', Some ''ATLAS''} then (None, Some ''atlas'', st)
      else if tb = Some ''OpenBLAS'' then (None, Some ''openblas'', st)
      else if tb = Some ''FlexiBLAS'' then (None, Some ''flexiblas'', st)
      else if tb = None then
        (Some (EasyBuildError ''No BLAS library found in the toolchain'' []), None, st)
      else (None, None, st))"

text \<open>A value is true in a Python condition unless it is \<open>None\<close> or empty.\<close>

definition truthy :: "string option \<Rightarrow> bool" where
  "truthy v = (case v of None \<Rightarrow> False | Some s \<Rightarrow> s \<noteq> [])"

definition configure_step :: "env \<Rightarrow> state \<Rightarrow> exn option \<times> state" where
  "configure_step e st =
     (let st1 = add_base_vars e st in
      case toolchain_blas e of
        Inl x \<Rightarrow> (Some x, st1)
      | Inr tb \<Rightarrow>
          (case select_blas e tb st1 of
             (Some x, _, st2) \<Rightarrow> (Some x, st2)
           | (None, None, st2) \<Rightarrow> (Some (UnboundLocalError ''blas''), st2)
           | (None, Some blas, st2) \<Rightarrow>
               let st3 = cfg_update_buildopts (fmt_assign ''USE_BLAS'' (Some blas)) st2;
                   st4 = (if truthy (software_root e ''NNPACK'')
                          then cfg_update_buildopts ''USE_NNPACK=1'' st3 else st3)
               in (None, st4\<lparr>events := events st4 @ [SuperConfigure (buildopts st4)]\<rparr>)))"

subsection \<open>The filesystem under the build directory\<close>

text \<open>
  The model of the operating system: a tree of directories and regular files (no
  symbolic links, no permissions). Every call can also fail because the environment
  says so (\<open>fault\<close>). A path may end in an empty component (a trailing slash) or in
  \<open>.\<close>, which both name the directory before them, or in \<open>..\<close>, which names the
  directory above that one. A call that fails returns the tree it leaves behind.
\<close>

fun children :: "node \<Rightarrow> (string \<times> node) list" where
  "children File = []"
| "children (Dir es) = es"

definition is_dir :: "node option \<Rightarrow> bool" where
  "is_dir n = (case n of Some (Dir _) \<Rightarrow> True | _ \<Rightarrow> False)"

fun lookup :: "node \<Rightarrow> path \<Rightarrow> node option" where
  "lookup n [] = Some n"
| "lookup n (c # cs) =
     (case n of
        File \<Rightarrow> None
      | Dir es \<Rightarrow> (case map_of es c of None \<Rightarrow> None | Some k \<Rightarrow> lookup k cs))"

text \<open>\<open>put n p x\<close> places \<open>x\<close> at \<open>p\<close>, creating the directories that are missing on
  the way; \<open>blocked n p\<close> says that a regular file is in the way.\<close>

fun put :: "node \<Rightarrow> path \<Rightarrow> node \<Rightarrow> node" where
  "put n [] x = x"
| "put n (c # cs) x =
     Dir (AList.update c
            (put (case map_of (children n) c of None \<Rightarrow> Dir [] | Some k \<Rightarrow> k) cs x)
            (children n))"

fun blocked :: "node \<Rightarrow> path \<Rightarrow> bool" where
  "blocked n [] = False"
| "blocked n (c # cs) =
     (case n of
        File \<Rightarrow> True
      | Dir es \<Rightarrow> (case map_of es c of None \<Rightarrow> False | Some k \<Rightarrow> blocked k cs))"

fun del :: "node \<Rightarrow> path \<Rightarrow> node" where
  "del n [] = n"
| "del n [c] = (case n of File \<Rightarrow> File | Dir es \<Rightarrow> Dir (AList.delete c es))"
| "del n (c # cs) =
     (case n of
        File \<Rightarrow> File
      | Dir es \<Rightarrow>
          (case map_of es c of None \<Rightarrow> n | Some k \<Rightarrow> Dir (AList.update c (del k cs) es)))"

definition special :: "string \<Rightarrow> bool" where
  "special c = (c = ''.'' \<or> c = ''..'')"

definition basename :: "path \<Rightarrow> string" where
  "basename p = (if p = [] then [] else last p)"

text \<open>\<open>os.rename(src, dst)\<close>\<close>

definition os_rename :: "env \<Rightarrow> node \<Rightarrow> path \<Rightarrow> path \<Rightarrow> exn + node" where
  "os_rename e fs src dst =
     (case fault e (OpRename src dst) of
        Some m \<Rightarrow> Inl (OSError m)
      | None \<Rightarrow>
          (case lookup fs src of
             None \<Rightarrow> Inl (OSError ''ENOENT'')
           | Some x \<Rightarrow>
               if src = dst then Inr fs
               else if prefix src dst \<or> special (basename dst) then Inl (OSError ''EINVAL'')
               else if \<not> is_dir (lookup fs (butlast dst)) then Inl (OSError ''ENOENT'')
               else (case (x, lookup fs dst) of
                       (_, None) \<Rightarrow> Inr (put (del fs src) dst x)
                     | (File, Some File) \<Rightarrow> Inr (put (del fs src) dst x)
                     | (File, Some (Dir ds)) \<Rightarrow> Inl (OSError ''EISDIR'')
                     | (Dir cs, Some File) \<Rightarrow> Inl (OSError ''ENOTDIR'')
                     | (Dir cs, Some (Dir ds)) \<Rightarrow>
                         if ds = [] then Inr (put (del fs src) dst x)
                         else Inl (OSError ''ENOTEMPTY''))))"

text \<open>
  \<open>remove_dir(path)\<close> of \<open>easybuild.tools.filetools\<close>: nothing happens when the path
  does not exist; otherwise \<open>shutil.rmtree\<close> removes the tree whatever it holds, and a
  removal that keeps failing ends in an \<open>EasyBuildError\<close>. For a path that ends in
  \<open>.\<close> or \<open>..\<close>, \<open>rmtree\<close> removes the entries of the directory that the path names
  and then fails to remove the directory itself.
\<close>

definition remove_dir_failed :: string where
  "remove_dir_failed = ''Failed to remove directory %s even after %d attempts.''"

definition remove_dir :: "env \<Rightarrow> node \<Rightarrow> path \<Rightarrow> exn option \<times> node" where
  "remove_dir e fs p =
     (let c = basename p;
          par = butlast p
      in if p \<noteq> [] \<and> (c = [] \<or> special c) then
           (if \<not> is_dir (lookup fs par) then (None, fs)
            else (case fault e (OpRmtree p) of
                    Some m \<Rightarrow> (Some (EasyBuildError remove_dir_failed [PathArg p, ErrArg m]), fs)
                  | None \<Rightarrow>
                      if c = [] then (None, del fs par)
                      else if c = ''.'' then
                        (Some (EasyBuildError remove_dir_failed [PathArg p, ErrArg ''EINVAL'']),
                         put fs par (Dir []))
                      else
                        (Some (EasyBuildError remove_dir_failed [PathArg p, ErrArg ''ENOENT'']),
                         put fs (butlast par) (Dir []))))
         else (case lookup fs p of
                 None \<Rightarrow> (None, fs)
               | Some File \<Rightarrow>
                   (Some (EasyBuildError remove_dir_failed [PathArg p, ErrArg ''ENOTDIR'']), fs)
               | Some (Dir cs) \<Rightarrow>
                   (case fault e (OpRmtree p) of
                      Some m \<Rightarrow>
                        (Some (EasyBuildError remove_dir_failed [PathArg p, ErrArg m]), fs)
                    | None \<Rightarrow> (None, del fs p))))"

text \<open>
  \<open>os.rename(src, real_dst)\<close> as \<open>shutil.move\<close> calls it, with what \<open>shutil.move\<close>
  does when the renaming fails: a directory is copied to the destination (the parents
  that are missing are created) and removed.
\<close>

definition move_node :: "node \<Rightarrow> path \<Rightarrow> path \<Rightarrow> exn option \<times> node" where
  "move_node fs src real_dst =
     (case lookup fs src of
        None \<Rightarrow> (Some (OSError ''ENOENT''), fs)
      | Some File \<Rightarrow>
          if is_dir (lookup fs (butlast real_dst)) \<and> lookup fs real_dst \<in> {None, Some File}
          then (None, put (del fs src) real_dst File)
          else (Some (OSError ''ENOENT''), fs)
      | Some (Dir cs) \<Rightarrow>
          if prefix src real_dst
            then (Some (OSError ''Cannot move a directory into itself''), fs)
          else if lookup fs real_dst \<noteq> None \<or> blocked fs real_dst
            then (Some (OSError ''ENOTDIR''), fs)
          else (None, put (del fs src) real_dst (Dir cs)))"

text \<open>
  \<open>shutil.move(src, dst)\<close>: a destination that is a directory receives the source under
  the source's own name, unless that name is taken; otherwise the source is moved to
  the destination. A destination that ends in an empty component or in \<open>.\<close> can only
  become a directory. For a destination \<open>par/..\<close> where \<open>par\<close> does not exist, the copy
  of a directory creates \<open>par\<close> and then fails.
\<close>

definition shutil_move :: "env \<Rightarrow> node \<Rightarrow> path \<Rightarrow> path \<Rightarrow> exn option \<times> node" where
  "shutil_move e fs src dst =
     (case fault e (OpMove src dst) of
        Some m \<Rightarrow> (Some (OSError m), fs)
      | None \<Rightarrow>
          let c = basename dst;
              par = butlast dst;
              named = (dst \<noteq> [] \<and> (c = [] \<or> special c));
              tgt = (if \<not> named then dst else if c = ''..'' then butlast par else par);
              into = (if named then is_dir (lookup fs par) else is_dir (lookup fs dst))
          in if into then
               (if lookup fs (tgt @ [basename src]) \<noteq> None
                then (Some (OSError ''Destination path already exists''), fs)
                else move_node fs src (tgt @ [basename src]))
             else if named then
               (case lookup fs src of
                  None \<Rightarrow> (Some (OSError ''ENOENT''), fs)
                | Some File \<Rightarrow> (Some (OSError ''ENOTDIR''), fs)
                | Some (Dir cs) \<Rightarrow>
                    if c = ''..'' then
                      (if lookup fs par = None \<and> \<not> blocked fs par
                       then (Some (OSError ''EEXIST''), put fs par (Dir []))
                       else (Some (OSError ''ENOTDIR''), fs))
                    else move_node fs src par)
             else move_node fs src dst)"

text \<open>
  \<open>glob.glob(os.path.join(builddir, pattern))\<close>: the names of the build directory that
  match the pattern, where \<open>*\<close> stands for any text and \<open>?\<close> for one character (the
  pattern of this file has no bracket expression), and where a name that begins with a
  dot only matches a pattern that begins with a dot.
\<close>

fun fnmatch :: "string \<Rightarrow> string \<Rightarrow> bool" where
  "fnmatch [] [] = True"
| "fnmatch (c # cs) [] = False"
| "fnmatch [] (p # ps) = (p = CHR ''*'' \<and> fnmatch [] ps)"
| "fnmatch (c # cs) (p # ps) =
     (if p = CHR ''*'' then fnmatch (c # cs) ps \<or> fnmatch cs (p # ps)
      else (p = CHR ''?'' \<or> p = c) \<and> fnmatch cs ps)"

definition hidden :: "string \<Rightarrow> bool" where
  "hidden s = (case s of [] \<Rightarrow> False | c # cs \<Rightarrow> c = CHR ''.'')"

definition glob :: "(string \<times> node) list \<Rightarrow> string \<Rightarrow> string list" where
  "glob es pat = filter (\<lambda>n. fnmatch n pat \<and> (hidden n \<longrightarrow> hidden pat)) (map fst es)"

subsection \<open>\<open>extract_step\<close>\<close>

text \<open>
  \<open>build_root\<close> is the build directory as \<open>super().extract_step()\<close> leaves it.
  \<open>self.mxnet_src_dir\<close> is kept as the name of the directory below the build
  directory. Log messages are not recorded.
\<close>

definition move_failed :: string where
  "move_failed = ''Failed to move %s to %s: %s''"

definition isolate_failed :: string where
  "isolate_failed = ''Failed to find/isolate MXNet source directory: %s''"

text \<open>The part of the loop body before the move: the name of the submodule, the
  renaming of oneDNN. It yields the submodule and the (new) name of the directory.\<close>

definition rename_submodule ::
  "env \<Rightarrow> string \<Rightarrow> state \<Rightarrow> exn + (string \<times> string \<times> state)" where
  "rename_submodule e srcdir st =
     (let submodule = fst (rpartition CHR ''-'' srcdir) in
      if submodule = ''oneDNN'' then
        (let old_srcdir = srcdir;
             srcdir' = str_replace ''oneDNN'' ''mkldnn'' srcdir
         in case os_rename e (Dir (build_root st)) [old_srcdir] [srcdir'] of
              Inl x \<Rightarrow> Inl x
            | Inr fs \<Rightarrow> Inr (''mkldnn'', srcdir', st\<lparr>build_root := children fs\<rparr>))
      else Inr (submodule, srcdir, st))"

text \<open>The rest of the loop body: the destination is cleared, then the directory is
  moved.\<close>

definition place_submodule ::
  "env \<Rightarrow> string \<Rightarrow> string \<Rightarrow> string \<Rightarrow> state \<Rightarrow> exn option \<times> state" where
  "place_submodule e main srcdir submodule st1 =
     (let olddir = [srcdir];
          newdir = [main, ''3rdparty'', submodule]
      in case remove_dir e (Dir (build_root st1)) newdir of
           (Some x, fs1) \<Rightarrow> (Some x, st1\<lparr>build_root := children fs1\<rparr>)
         | (None, fs2) \<Rightarrow>
             (case shutil_move e fs2 olddir newdir of
                (Some (OSError err), fs3) \<Rightarrow>
                  (Some (EasyBuildError move_failed [PathArg olddir, PathArg newdir, ErrArg err]),
                   st1\<lparr>build_root := children fs3\<rparr>)
              | (Some x, fs3) \<Rightarrow> (Some x, st1\<lparr>build_root := children fs3\<rparr>)
              | (None, fs3) \<Rightarrow> (None, st1\<lparr>build_root := children fs3\<rparr>)))"

text \<open>One turn of the loop over the other directories.\<close>

definition move_submodule :: "env \<Rightarrow> string \<Rightarrow> string \<Rightarrow> state \<Rightarrow> exn option \<times> state" where
  "move_submodule e main srcdir0 st =
     (case rename_submodule e srcdir0 st of
        Inl x \<Rightarrow> (Some x, st)
      | Inr (submodule, srcdir, st1) \<Rightarrow> place_submodule e main srcdir submodule st1)"

fun move_submodules :: "env \<Rightarrow> string \<Rightarrow> string list \<Rightarrow> state \<Rightarrow> exn option \<times> state" where
  "move_submodules e main [] st = (None, st)"
| "move_submodules e main (d # ds) st =
     (case move_submodule e main d st of
        (Some x, st') \<Rightarrow> (Some x, st')
      | (None, st') \<Rightarrow> move_submodules e main ds st')"

definition extract_step :: "env \<Rightarrow> state \<Rightarrow> exn option \<times> state" where
  "extract_step e st =
     (let mxnet_dirs = glob (build_root st) ''*mxnet-*'' in
      if length mxnet_dirs = 1 then
        (let main = hd mxnet_dirs;
             st1 = st\<lparr>mxnet_src_dir := Some main\<rparr>
         in move_submodules e main (filter (\<lambda>d. d \<noteq> main) (map fst (build_root st1))) st1)
      else (Some (EasyBuildError isolate_failed [PathsArg (map (\<lambda>n. [n]) mxnet_dirs)]), st))"

subsection \<open>The extensions\<close>

text \<open>
  What the later steps read from the framework: the name of the software and the
  installation directory, the outcome of the collaborators' checks, the installation
  tree, the directories where the Python installer may have put libraries, and the
  module generator.
\<close>

record collab =
  name :: string
  installdir :: string
  shared_lib_ext :: string
  super_sanity_check :: "exn option"
  load_fake_module :: "exn option"
  py_sanity_check :: bool
  r_sanity_check :: bool
  install_tree :: node
  all_pylibdirs :: "path list"
  super_module_extra :: string
  prepend_paths :: "string \<Rightarrow> string list \<Rightarrow> string"

text \<open>The default of the custom easyconfig parameter \<open>install_r_ext\<close> in
  \<open>extra_options\<close>.\<close>

definition install_r_ext_default :: bool where
  "install_r_ext_default = False"

definition newline :: char where
  "newline = CHR 0x0A"

definition backslash :: char where
  "backslash = CHR 0x5C"

text \<open>\<open>os.path.join\<close> on two strings.\<close>

definition os_path_join :: "string \<Rightarrow> string \<Rightarrow> string" where
  "os_path_join a b =
     (if b \<noteq> [] \<and> hd b = CHR ''/'' then b
      else if a = [] \<or> last a = CHR ''/'' then a @ b
      else a @ ''/'' @ b)"

text \<open>The namespace file for the R extension.\<close>

definition R_NAMESPACE :: string where
  "R_NAMESPACE = concat (map (\<lambda>l. l @ [newline])
     [''# Export all names'',
      ''exportPattern('' @ [dquote] @ ''.'' @ [dquote] @ '')'',
      [],
      ''# Import all packages listed as Imports or Depends'',
      ''import('',
      ''methods,'',
      ''Rcpp,'',
      ''DiagrammeR,'',
      ''data.table,'',
      ''jsonlite,'',
      ''magrittr,'',
      ''stringr'',
      '')''])"

definition export_cmd :: "string \<Rightarrow> string" where
  "export_cmd dir =
     ''R_LIBS='' @ dir @ '' Rscript -e '' @ [dquote] @ ''require(mxnet); mxnet:::mxnet.export(''
       @ [backslash, dquote] @ ''R-package'' @ [backslash, dquote] @ '')'' @ [dquote]"

definition install_r_ext :: "collab \<Rightarrow> string \<Rightarrow> state \<Rightarrow> exn option \<times> state" where
  "install_r_ext c main st =
     (None, st\<lparr>events := events st @
        [ChangeDir [main, ''R-package''],
         Mkdir ''inst'',
         Symlink (os_path_join (installdir c) ''lib'') (os_path_join ''inst'' ''libs''),
         Symlink (os_path_join (installdir c) ''include'') (os_path_join ''inst'' ''include''),
         WriteFile ''NAMESPACE'' R_NAMESPACE,
         ChangeDir [main],
         RPrerun,
         RRun,
         RunCmd (export_cmd (installdir c)),
         ChangeDir [main, ''R-package''],
         RRun,
         RPostrun]\<rparr>)"

text \<open>\<open>os.path.join(self.mxnet_src_dir, "python")\<close> raises \<open>TypeError\<close> while the
  directory is still \<open>None\<close>.\<close>

definition extensions_step :: "collab \<Rightarrow> state \<Rightarrow> exn option \<times> state" where
  "extensions_step c st =
     (case mxnet_src_dir st of
        None \<Rightarrow> (Some TypeError, st)
      | Some main \<Rightarrow>
          let st1 = st\<lparr>events := events st @
                       [ChangeDir [main, ''python''], PyPrerun, PyRun, PyPostrun]\<rparr>
          in if cfg_install_r_ext st1 then install_r_ext c main st1 else (None, st1))"

subsection \<open>\<open>sanity_check_step\<close>\<close>

definition char_lower :: "char \<Rightarrow> char" where
  "char_lower c =
     (case map_of (zip ''ABCDEFGHIJKLMNOPQRSTUVWXYZ'' ''abcdefghijklmnopqrstuvwxyz'') c of
        None \<Rightarrow> c
      | Some l \<Rightarrow> l)"

definition str_lower :: "string \<Rightarrow> string" where
  "str_lower s = map char_lower s"

definition fake_module_failed :: string where
  "fake_module_failed = ''Loading fake module failed: %s''"

definition py_sanity_failed :: string where
  "py_sanity_failed = ''The sanity check for the Python bindings failed''"

definition r_sanity_failed :: string where
  "r_sanity_failed = ''The sanity check for the R bindings failed''"

definition sanity_check_step :: "collab \<Rightarrow> state \<Rightarrow> exn option \<times> state" where
  "sanity_check_step c st =
     (let st1 = st\<lparr>events := events st @
                  [SuperSanity [''lib/libmxnet.a'', ''lib/libmxnet.'' @ shared_lib_ext c] []]\<rparr>
      in case super_sanity_check c of
           Some x \<Rightarrow> (Some x, st1)
         | None \<Rightarrow>
             let st2 = st1\<lparr>events := events st1 @ [LoadFakeModule]\<rparr>
             in (case load_fake_module c of
                   Some (EasyBuildError msg args) \<Rightarrow>
                     (Some (EasyBuildError fake_module_failed [ErrArg msg]), st2)
                 | Some x \<Rightarrow> (Some x, st2)
                 | None \<Rightarrow>
                     let st3 = st2\<lparr>events := events st2 @ [PySanity]\<rparr>
                     in if \<not> py_sanity_check c
                        then (Some (EasyBuildError py_sanity_failed []), st3)
                        else
                          let st4 = st3\<lparr>events := events st3 @ [RSanity (str_lower (name c))]\<rparr>
                          in if \<not> r_sanity_check c
                             then (Some (EasyBuildError r_sanity_failed []), st4)
                             else (None, st4\<lparr>events := events st4 @ [CleanUpFakeModule]\<rparr>)))"

subsection \<open>\<open>make_module_extra\<close>\<close>

text \<open>
  The candidates are paths relative to the installation directory, looked up in the
  installation tree; the module generator gets them as strings. \<open>os.listdir\<close> of a
  path that is not a directory raises \<open>NotADirectoryError\<close>, an \<open>OSError\<close>.
\<close>

definition path_string :: "path \<Rightarrow> string" where
  "path_string p = (case p of [] \<Rightarrow> [] | c # cs \<Rightarrow> foldl os_path_join c cs)"

fun pythonpath_lines :: "collab \<Rightarrow> path list \<Rightarrow> exn + string" where
  "pythonpath_lines c [] = Inr []"
| "pythonpath_lines c (p # ps) =
     (case lookup (install_tree c) p of
        None \<Rightarrow> pythonpath_lines c ps
      | Some File \<Rightarrow> Inl (OSError ''ENOTDIR'')
      | Some (Dir es) \<Rightarrow>
          (case pythonpath_lines c ps of
             Inl x \<Rightarrow> Inl x
           | Inr txt \<Rightarrow>
               Inr ((if es \<noteq> [] then prepend_paths c ''PYTHONPATH'' [path_string p] else [])
                    @ txt)))"

definition make_module_extra :: "collab \<Rightarrow> exn + string" where
  "make_module_extra c =
     (case pythonpath_lines c (all_pylibdirs c) of
        Inl x \<Rightarrow> Inl x
      | Inr txt \<Rightarrow> Inr (super_module_extra c @ txt @ prepend_paths c ''R_LIBS'' [[]]))"

subsection \<open>Notions for the statements about \<open>extract_step\<close>\<close>

text \<open>The other directories of the build directory, in the order of the loop.\<close>

definition dependencies :: "(string \<times> node) list \<Rightarrow> string \<Rightarrow> string list" where
  "dependencies es main = filter (\<lambda>d. d \<noteq> main) (map fst es)"

text \<open>The normalization rule of the specification: strip the trailing \<open>-<version>\<close>,
  map \<open>oneDNN\<close> to \<open>mkldnn\<close>.\<close>

definition normalized_name :: "string \<Rightarrow> string" where
  "normalized_name d =
     (let submodule = fst (rpartition CHR ''-'' d)
      in if submodule = ''oneDNN'' then ''mkldnn'' else submodule)"

text \<open>The names that a list has after the first occurrence of a given name.\<close>

definition listed_after :: "string \<Rightarrow> string list \<Rightarrow> string list" where
  "listed_after d ds = drop 1 (dropWhile (\<lambda>x. x \<noteq> d) ds)"

text \<open>The entries of \<open>main/3rdparty\<close>, when \<open>main\<close> is a directory and
  \<open>3rdparty\<close> is a directory or does not exist yet (it then has no entries).\<close>

definition third_party ::
  "(string \<times> node) list \<Rightarrow> string \<Rightarrow> (string \<Rightarrow> node option) option" where
  "third_party es main =
     (case map_of es main of
        Some (Dir ms) \<Rightarrow>
          (case map_of ms ''3rdparty'' of
             None \<Rightarrow> Some (\<lambda>s. None)
           | Some File \<Rightarrow> None
           | Some (Dir ts) \<Rightarrow> Some (map_of ts))
      | _ \<Rightarrow> None)"

text \<open>
  A build directory that is ready for assembly: no filesystem call fails for outside
  reasons; the main directory is found, and in it \<open>3rdparty\<close> is a directory or does
  not exist; every other entry is a directory whose normalized name is a proper name,
  and where \<open>3rdparty\<close> already has an entry of that name it is a directory; and no
  two entries have the same normalized name.
\<close>

definition assembly_ready :: "env \<Rightarrow> (string \<times> node) list \<Rightarrow> string \<Rightarrow> bool" where
  "assembly_ready e es main \<longleftrightarrow>
     (\<forall>op. fault e op = None)
     \<and> glob es ''*mxnet-*'' = [main]
     \<and> distinct (map fst es)
     \<and> distinct (map normalized_name (dependencies es main))
     \<and> (\<exists>tp. third_party es main = Some tp
           \<and> (\<forall>d \<in> set (dependencies es main).
                 is_dir (map_of es d)
                 \<and> normalized_name d \<noteq> [] \<and> \<not> special (normalized_name d)
                 \<and> tp (normalized_name d) \<noteq> Some File))"

subsection \<open>Concrete surroundings\<close>

text \<open>An environment without variables, toolchain elements, loaded software or
  faults, and an easyblock that has just been created over a given build directory.\<close>

definition bare_env :: env where
  "bare_env = \<lparr>environ = (\<lambda>_. None), toolchain_definition = (\<lambda>_. None),
                software_version = (\<lambda>_. None), software_root = (\<lambda>_. None),
                fault = (\<lambda>_. None)\<rparr>"

definition new_easyblock :: "(string \<times> node) list \<Rightarrow> state" where
  "new_easyblock es = \<lparr>build_root = es, mxnet_src_dir = None, buildopts = [],
                         cfg_install_r_ext = install_r_ext_default, events = []\<rparr>"

text \<open>The scenario of the specification, and a build directory with two versions of
  one dependency.\<close>

definition scenario_root :: "(string \<times> node) list" where
  "scenario_root =
     [(''proj-mxnet-1.9'',
         Dir [(''3rdparty'', Dir [(''mkldnn'', Dir []), (''ps-lite'', Dir [])]),
              (''src'', Dir [])]),
      (''oneDNN-2.6'', Dir [(''README'', File)]),
      (''ps-lite-a1b2'', Dir [(''Makefile'', File)])]"

definition collision_root :: "(string \<times> node) list" where
  "collision_root =
     [(''mxnet-1.9'', Dir [(''3rdparty'', Dir [])]),
      (''ps-lite-1'', Dir [(''a'', File)]),
      (''ps-lite-2'', Dir [(''b'', File)])]"

text \<open>A build directory whose main directory has no \<open>3rdparty\<close> yet.\<close>

definition fresh_root :: "(string \<times> node) list" where
  "fresh_root =
     [(''mxnet-1.9'', Dir [(''src'', Dir [])]),
      (''dmlc-core-0.5'', Dir [(''a'', File)])]"

text \<open>Build directories around \<open>oneDNN-1.2\<close>: one where \<open>mkldnn-0.9\<close> is
  listed after it, one where a directory without a hyphen is listed after it, and one
  where \<open>mkldnn-0.9\<close> is listed before it and the main directory has no
  \<open>3rdparty\<close> yet.\<close>

definition overwritten_root :: "(string \<times> node) list" where
  "overwritten_root =
     [(''mxnet-1.9'', Dir [(''3rdparty'', Dir [])]),
      (''oneDNN-1.2'', Dir [(''a'', File)]),
      (''mkldnn-0.9'', Dir [(''b'', File)])]"

definition swallowed_root :: "(string \<times> node) list" where
  "swallowed_root =
     [(''mxnet-1.9'', Dir [(''3rdparty'', Dir [])]),
      (''oneDNN-1.2'', Dir [(''a'', File)]),
      (''extra'', Dir [(''b'', File)])]"

definition late_root :: "(string \<times> node) list" where
  "late_root =
     [(''mxnet-1.9'', Dir [(''src'', File)]),
      (''mkldnn-0.9'', Dir [(''b'', File)]),
      (''oneDNN-1.2'', Dir [(''a'', File)]),
      (''ps-lite-1'', Dir [])]"

section \<open>Properties\<close>

subsection \<open>\<open>configure_step\<close>\<close>

lemma buildopts_add_base_vars:
  "buildopts (add_base_vars e st) = buildopts st @
     [fmt_assign ''CC'' (environ e ''CC''), fmt_assign ''CXX'' (environ e ''CXX''),
      fmt_assign ''ADD_CFLAGS'' (environ e ''CFLAGS''),
      fmt_assign ''ADD_LDFLAGS'' (environ e ''LDFLAGS'')]"
  by (simp add: add_base_vars_def base_vars_def cfg_update_buildopts_def)

lemma events_add_base_vars: "events (add_base_vars e st) = events st"
  by (simp add: add_base_vars_def base_vars_def cfg_update_buildopts_def)

lemma version_18_0: "loose_version_ge (Some ''18.0'') ''17'' = Inr True"
  by (simp add: loose_version_ge_def is_digit_def is_lower_def is_other_def
      int_of_digits_def digit_val_def)

text \<open>
  The documented failure is reached when the entry for BLAS is a list whose first
  element is \<open>None\<close>: the error is raised after the four base variables have been
  added to the build options, and before anything is handed to the parent's
  \<open>configure_step\<close>.
\<close>

lemma no_blas_error:
  assumes "toolchain_blas e = Inr None"
  shows "fst (configure_step e st) = Some (EasyBuildError ''No BLAS library found in the toolchain'' [])"
    and "events (snd (configure_step e st)) = events st"
    and "buildopts (snd (configure_step e st)) = buildopts (add_base_vars e st)"
  using assms by (simp_all add: configure_step_def select_blas_def events_add_base_vars)

text \<open>
  C1. A toolchain without a linear-algebra backend has no entry for BLAS in its
  definition (or the entry \<open>None\<close>). There \<open>get('BLAS', None)\<close> yields \<open>None\<close>, the
  subscript \<open>[0]\<close> raises \<open>TypeError\<close>, and the branch that raises "No BLAS library
  found in the toolchain" is never reached.
\<close>

theorem missing_blas_entry_type_error:
  "fst (configure_step bare_env (new_easyblock [])) = Some TypeError
   \<and> fst (configure_step (bare_env\<lparr>toolchain_definition := (\<lambda>k. Some TcNone)\<rparr>) (new_easyblock []))
       = Some TypeError"
  by (simp add: configure_step_def toolchain_blas_def bare_env_def)

text \<open>
  C10. A backend that is not \<open>None\<close> and not one of the five known names binds no
  value to \<open>blas\<close>: the step ends in \<open>UnboundLocalError\<close>, not in an
  \<open>EasyBuildError\<close>, and the parent's \<open>configure_step\<close> is not called.
\<close>

theorem unknown_backend_unbound:
  assumes "toolchain_blas e = Inr (Some b)"
    and "b \<notin> {''imkl'', ''ACML'', ''ATLAS'', ''OpenBLAS'', ''FlexiBLAS''}"
  shows "fst (configure_step e st) = Some (UnboundLocalError ''blas'')
     \<and> (\<forall>msg args. fst (configure_step e st) \<noteq> Some (EasyBuildError msg args))
     \<and> events (snd (configure_step e st)) = events st"
  using assms by (simp add: configure_step_def select_blas_def events_add_base_vars)

theorem unknown_backend_unbound_witness:
  "toolchain_blas (bare_env\<lparr>toolchain_definition :=
       (\<lambda>k. if k = ''BLAS'' then Some (TcList [Some ''BLIS'']) else None)\<rparr>) = Inr (Some ''BLIS'')
   \<and> ''BLIS'' \<notin> {''imkl'', ''ACML'', ''ATLAS'', ''OpenBLAS'', ''FlexiBLAS''}
   \<and> fst (configure_step (bare_env\<lparr>toolchain_definition :=
       (\<lambda>k. if k = ''BLAS'' then Some (TcList [Some ''BLIS'']) else None)\<rparr>) (new_easyblock []))
       = Some (UnboundLocalError ''blas'')"
proof -
  let ?e = "bare_env\<lparr>toolchain_definition :=
       (\<lambda>k. if k = ''BLAS'' then Some (TcList [Some ''BLIS'']) else None)\<rparr>"
  have h1: "toolchain_blas ?e = Inr (Some ''BLIS'')"
    by (simp add: toolchain_blas_def)
  have h2: "''BLIS'' \<notin> {''imkl'', ''ACML'', ''ATLAS'', ''OpenBLAS'', ''FlexiBLAS''}"
    by simp
  from unknown_backend_unbound [OF h1 h2, of "new_easyblock []"] h1 h2 show ?thesis
    by blast
qed

text \<open>
  C5. With the backend \<open>imkl\<close> at version 18.0 the step succeeds; it appends, after the
  four base variables, \<open>USE_MKL2017=1\<close>, \<open>MKLML_ROOT\<close> with the value of the
  environment variable \<open>MKLROOT\<close>, and \<open>USE_BLAS="mkl"\<close>, and hands the build options
  to the parent's \<open>configure_step\<close>.
\<close>

theorem imkl_18_flags:
  assumes "toolchain_blas e = Inr (Some ''imkl'')"
    and "software_version e ''imkl'' = Some ''18.0''"
  shows "fst (configure_step e st) = None
     \<and> buildopts (snd (configure_step e st)) = buildopts st @
         [fmt_assign ''CC'' (environ e ''CC''), fmt_assign ''CXX'' (environ e ''CXX''),
          fmt_assign ''ADD_CFLAGS'' (environ e ''CFLAGS''),
          fmt_assign ''ADD_LDFLAGS'' (environ e ''LDFLAGS''),
          ''USE_MKL2017=1'',
          ''MKLML_ROOT='' @ [dquote] @ pystr (environ e ''MKLROOT'') @ [dquote],
          ''USE_BLAS='' @ [dquote] @ ''mkl'' @ [dquote]]
         @ (if truthy (software_root e ''NNPACK'') then [''USE_NNPACK=1''] else [])
     \<and> events (snd (configure_step e st))
         = events st @ [SuperConfigure (buildopts (snd (configure_step e st)))]"
  using assms
  by (simp add: configure_step_def select_blas_def version_18_0 cfg_update_buildopts_def
      buildopts_add_base_vars events_add_base_vars fmt_assign_def pystr_def Let_def)

theorem imkl_18_flags_witness:
  "toolchain_blas (bare_env\<lparr>toolchain_definition :=
          (\<lambda>k. if k = ''BLAS'' then Some (TcList [Some ''imkl'']) else None),
        software_version := (\<lambda>k. if k = ''imkl'' then Some ''18.0'' else None),
        environ := (\<lambda>k. if k = ''MKLROOT'' then Some ''/opt/mkl'' else None)\<rparr>)
     = Inr (Some ''imkl'')
   \<and> set [''USE_BLAS='' @ [dquote] @ ''mkl'' @ [dquote], ''USE_MKL2017=1'',
           ''MKLML_ROOT='' @ [dquote] @ ''/opt/mkl'' @ [dquote]]
       \<subseteq> set (buildopts (snd (configure_step (bare_env\<lparr>toolchain_definition :=
          (\<lambda>k. if k = ''BLAS'' then Some (TcList [Some ''imkl'']) else None),
        software_version := (\<lambda>k. if k = ''imkl'' then Some ''18.0'' else None),
        environ := (\<lambda>k. if k = ''MKLROOT'' then Some ''/opt/mkl'' else None)\<rparr>)
          (new_easyblock []))))"
proof -
  let ?e = "bare_env\<lparr>toolchain_definition :=
          (\<lambda>k. if k = ''BLAS'' then Some (TcList [Some ''imkl'']) else None),
        software_version := (\<lambda>k. if k = ''imkl'' then Some ''18.0'' else None),
        environ := (\<lambda>k. if k = ''MKLROOT'' then Some ''/opt/mkl'' else None)\<rparr>"
  have h1: "toolchain_blas ?e = Inr (Some ''imkl'')"
    by (simp add: toolchain_blas_def)
  have h2: "software_version ?e ''imkl'' = Some ''18.0''"
    by simp
  from imkl_18_flags [OF h1 h2, of "new_easyblock []"] h1 show ?thesis
    by (simp add: pystr_def)
qed

subsection \<open>\<open>extract_step\<close>\<close>

lemma fnmatch_star:
  "fnmatch s (CHR ''*'' # ps) \<longleftrightarrow> (\<exists>k\<le>length s. fnmatch (drop k s) ps)"
proof (induction s)
  case Nil
  then show ?case by simp
next
  case (Cons c cs)
  have "fnmatch (c # cs) (CHR ''*'' # ps)
          \<longleftrightarrow> fnmatch (c # cs) ps \<or> fnmatch cs (CHR ''*'' # ps)"
    by simp
  also have "\<dots> \<longleftrightarrow> fnmatch (c # cs) ps \<or> (\<exists>k\<le>length cs. fnmatch (drop k cs) ps)"
    using Cons.IH by simp
  also have "\<dots> \<longleftrightarrow> (\<exists>k\<le>length (c # cs). fnmatch (drop k (c # cs)) ps)"
  proof
    assume "fnmatch (c # cs) ps \<or> (\<exists>k\<le>length cs. fnmatch (drop k cs) ps)"
    then show "\<exists>k\<le>length (c # cs). fnmatch (drop k (c # cs)) ps"
    proof
      assume "fnmatch (c # cs) ps"
      then have "fnmatch (drop 0 (c # cs)) ps" by simp
      then show ?thesis by blast
    next
      assume "\<exists>k\<le>length cs. fnmatch (drop k cs) ps"
      then obtain k where "k \<le> length cs" "fnmatch (drop k cs) ps" by blast
      then have "Suc k \<le> length (c # cs)" "fnmatch (drop (Suc k) (c # cs)) ps" by simp_all
      then show ?thesis by blast
    qed
  next
    assume "\<exists>k\<le>length (c # cs). fnmatch (drop k (c # cs)) ps"
    then obtain k where k: "k \<le> length (c # cs)" "fnmatch (drop k (c # cs)) ps" by blast
    show "fnmatch (c # cs) ps \<or> (\<exists>k\<le>length cs. fnmatch (drop k cs) ps)"
    proof (cases k)
      case 0
      with k show ?thesis by simp
    next
      case (Suc j)
      with k have "j \<le> length cs" "fnmatch (drop j cs) ps" by simp_all
      then show ?thesis by blast
    qed
  qed
  finally show ?case .
qed

lemma fnmatch_any: "fnmatch s ''*''"
  by (induction s) simp_all

lemma fnmatch_literal:
  "p \<noteq> CHR ''*'' \<Longrightarrow> p \<noteq> CHR ''?''
     \<Longrightarrow> fnmatch s (p # ps) \<longleftrightarrow> (\<exists>cs. s = p # cs \<and> fnmatch cs ps)"
  by (cases s) auto

lemma fnmatch_mxnet_tail: "fnmatch s ''mxnet-*'' \<longleftrightarrow> prefix ''mxnet-'' s"
  by (auto simp: fnmatch_literal fnmatch_any prefix_def)

text \<open>The pattern of \<open>extract_step\<close> matches the names that contain \<open>mxnet-\<close>.\<close>

lemma fnmatch_marker: "fnmatch s ''*mxnet-*'' \<longleftrightarrow> sublist ''mxnet-'' s"
proof -
  have "fnmatch s ''*mxnet-*'' \<longleftrightarrow> (\<exists>k\<le>length s. prefix ''mxnet-'' (drop k s))"
    using fnmatch_star [of s "''mxnet-*''"] by (simp only: fnmatch_mxnet_tail)
  also have "\<dots> \<longleftrightarrow> sublist ''mxnet-'' s"
  proof
    assume "\<exists>k\<le>length s. prefix ''mxnet-'' (drop k s)"
    then obtain k zs where "drop k s = ''mxnet-'' @ zs" by (auto simp: prefix_def)
    then have "s = take k s @ ''mxnet-'' @ zs" by (metis append_take_drop_id)
    then show "sublist ''mxnet-'' s" unfolding sublist_def by blast
  next
    assume "sublist ''mxnet-'' s"
    then obtain ps ss where s: "s = ps @ ''mxnet-'' @ ss" unfolding sublist_def by blast
    then have "length ps \<le> length s" "prefix ''mxnet-'' (drop (length ps) s)" by simp_all
    then show "\<exists>k\<le>length s. prefix ''mxnet-'' (drop k s)" by blast
  qed
  finally show ?thesis .
qed

lemma glob_marker:
  "glob es ''*mxnet-*'' = filter (\<lambda>n. sublist ''mxnet-'' n \<and> \<not> hidden n) (map fst es)"
proof -
  have "hidden ''*mxnet-*'' = False" by (simp add: hidden_def)
  then show ?thesis by (simp only: glob_def fnmatch_marker simp_thms)
qed

lemma third_partyE:
  assumes "third_party es m = Some P"
  obtains (absent) ms where "map_of es m = Some (Dir ms)" "map_of ms ''3rdparty'' = None"
      "P = (\<lambda>s. None)"
    | (present) ms ts where "map_of es m = Some (Dir ms)"
      "map_of ms ''3rdparty'' = Some (Dir ts)" "P = map_of ts"
  using assms by (auto simp: third_party_def split: option.splits node.splits)

lemmas place_defs = place_submodule_def remove_dir_def shutil_move_def move_node_def
  basename_def special_def is_dir_def Let_def

lemma place_plain:
  assumes tp: "third_party (build_root st) m = Some P"
    and d: "map_of (build_root st) d = Some (Dir cs)"
    and dm: "d \<noteq> m"
    and sub: "sub \<noteq> []" "\<not> special sub"
    and nofile: "P sub \<noteq> Some File"
    and nofault: "\<forall>op. fault e op = None"
  shows "\<exists>es'. place_submodule e m d sub st = (None, st\<lparr>build_root := es'\<rparr>)
           \<and> third_party es' m = Some (P(sub \<mapsto> Dir cs))
           \<and> (\<forall>k. k \<noteq> m \<longrightarrow> map_of es' k = (if k = d then None else map_of (build_root st) k))"
  using tp
proof (cases rule: third_partyE)
  case (absent ms)
  from sub have sub': "sub \<noteq> ''.''" "sub \<noteq> ''..''" by (auto simp: special_def)
  show ?thesis
    using absent d dm sub sub' nofault
    apply (simp add: place_defs AList.update_conv' AList.delete_conv')
    apply (rule exI, rule conjI, rule refl)
    apply (simp add: third_party_def AList.update_conv' AList.delete_conv')
    done
next
  case (present ms ts)
  from sub have sub': "sub \<noteq> ''.''" "sub \<noteq> ''..''" by (auto simp: special_def)
  show ?thesis
  proof (cases "map_of ts sub")
    case None
    then show ?thesis
      using present d dm sub sub' nofault
      apply (simp add: place_defs AList.update_conv' AList.delete_conv')
      apply (rule exI, rule conjI, rule refl)
      apply (simp add: third_party_def AList.update_conv' AList.delete_conv')
      done
  next
    case (Some x)
    with nofile present obtain xs where x: "x = Dir xs" by (cases x) auto
    show ?thesis
      using present d dm sub sub' nofault Some x
      apply (simp add: place_defs AList.update_conv' AList.delete_conv')
      apply (rule exI, rule conjI, rule refl)
      apply (simp add: third_party_def AList.update_conv' AList.delete_conv')
      done
  qed
qed

lemma rpartition_fst_split:
  assumes "fst (rpartition c s) = h" and "h \<noteq> []"
  shows "\<exists>t. s = h @ c # t \<and> c \<notin> set t"
proof -
  from assms have mem: "c \<in> set s" by (auto simp: rpartition_def split: if_splits)
  then have "c \<in> set (rev s)" by simp
  then obtain ys zs where split: "rev s = ys @ c # zs" and ys: "c \<notin> set ys"
    by (meson split_list_first)
  from ys have "dropWhile (\<lambda>x. x \<noteq> c) (rev s) = c # zs"
    unfolding split by (induction ys) auto
  with assms(1) mem have h: "h = rev zs" by (simp add: rpartition_def)
  from split have "s = rev (ys @ c # zs)" by (metis rev_rev_ident)
  then have "s = rev zs @ c # rev ys" by simp
  with h ys show ?thesis by auto
qed

lemma onednn_renamed:
  assumes "fst (rpartition CHR ''-'' d) = ''oneDNN''"
  shows "\<exists>t. str_replace ''oneDNN'' ''mkldnn'' d = ''mkldnn-'' @ t"
proof -
  from rpartition_fst_split [OF assms] obtain t where "d = ''oneDNN'' @ CHR ''-'' # t" by auto
  then show ?thesis by simp
qed

lemma rename_onednn:
  assumes one: "fst (rpartition CHR ''-'' d) = ''oneDNN''"
    and d: "map_of (build_root st) d = Some (Dir cs)"
    and free: "str_replace ''oneDNN'' ''mkldnn'' d \<notin> fst ` set (build_root st)"
    and nofault: "\<forall>op. fault e op = None"
  shows "\<exists>es1. rename_submodule e d st
             = Inr (''mkldnn'', str_replace ''oneDNN'' ''mkldnn'' d, st\<lparr>build_root := es1\<rparr>)
           \<and> map_of es1 = (map_of (build_root st))(d := None, str_replace ''oneDNN'' ''mkldnn'' d \<mapsto> Dir cs)"
proof -
  let ?d' = "str_replace ''oneDNN'' ''mkldnn'' d"
  from onednn_renamed [OF one] obtain t where t: "?d' = ''mkldnn-'' @ t" by blast
  then have nsp: "\<not> special ?d'" by (simp add: special_def)
  from free have none: "map_of (build_root st) ?d' = None"
    by (simp add: map_of_eq_None_iff)
  from d none have ne: "d \<noteq> ?d'" by auto
  show ?thesis
    using one d none ne nsp nofault
    apply (simp add: rename_submodule_def os_rename_def basename_def is_dir_def Let_def)
    apply (rule exI, rule conjI, rule refl)
    apply (simp add: AList.update_conv' AList.delete_conv')
    done
qed


lemma move_submodule_ready:
  assumes tp: "third_party (build_root st) m = Some P"
    and d: "map_of (build_root st) d = Some (Dir cs)"
    and dm: "d \<noteq> m"
    and sub: "normalized_name d \<noteq> []" "\<not> special (normalized_name d)"
    and nofile: "P (normalized_name d) \<noteq> Some File"
    and free: "fst (rpartition CHR ''-'' d) = ''oneDNN''
                 \<longrightarrow> str_replace ''oneDNN'' ''mkldnn'' d \<notin> fst ` set (build_root st)"
    and nofault: "\<forall>op. fault e op = None"
  shows "\<exists>es'. move_submodule e m d st = (None, st\<lparr>build_root := es'\<rparr>)
           \<and> third_party es' m = Some (P(normalized_name d \<mapsto> Dir cs))
           \<and> (\<forall>k. k \<noteq> m \<longrightarrow> map_of es' k = (if k = d then None else map_of (build_root st) k))"
proof (cases "fst (rpartition CHR ''-'' d) = ''oneDNN''")
  case False
  then have rn: "rename_submodule e d st = Inr (normalized_name d, d, st)"
    by (simp add: rename_submodule_def normalized_name_def Let_def)
  from place_plain [OF tp d dm sub nofile nofault] rn show ?thesis
    by (simp add: move_submodule_def)
next
  case True
  let ?d' = "str_replace ''oneDNN'' ''mkldnn'' d"
  from True have nn: "normalized_name d = ''mkldnn''"
    by (simp add: normalized_name_def)
  from True free have fr: "?d' \<notin> fst ` set (build_root st)" by simp
  from rename_onednn [OF True d fr nofault] obtain es1
    where rn: "rename_submodule e d st = Inr (''mkldnn'', ?d', st\<lparr>build_root := es1\<rparr>)"
      and es1: "map_of es1 = (map_of (build_root st))(d := None, ?d' \<mapsto> Dir cs)"
    by blast
  from tp have "map_of (build_root st) m \<noteq> None"
    by (auto simp: third_party_def split: option.splits)
  then have "m \<in> fst ` set (build_root st)"
    by (simp add: map_of_eq_None_iff)
  with fr have d'm: "?d' \<noteq> m" by auto
  from fr have none: "map_of (build_root st) ?d' = None"
    by (simp add: map_of_eq_None_iff)
  let ?st1 = "st\<lparr>build_root := es1\<rparr>"
  have tp1: "third_party (build_root ?st1) m = Some P"
    using tp dm d'm es1 by (simp add: third_party_def)
  have d1: "map_of (build_root ?st1) ?d' = Some (Dir cs)"
    using es1 by simp
  from sub nofile nn have sub1: "''mkldnn'' \<noteq> []" "\<not> special ''mkldnn''" "P ''mkldnn'' \<noteq> Some File"
    by simp_all
  from place_plain [OF tp1 d1 d'm sub1 nofault] obtain es'
    where pl: "place_submodule e m ?d' ''mkldnn'' ?st1 = (None, ?st1\<lparr>build_root := es'\<rparr>)"
      and tp': "third_party es' m = Some (P(''mkldnn'' \<mapsto> Dir cs))"
      and rest: "\<forall>k. k \<noteq> m \<longrightarrow> map_of es' k = (if k = ?d' then None else map_of (build_root ?st1) k)"
    by blast
  have "move_submodule e m d st = (None, st\<lparr>build_root := es'\<rparr>)"
    using rn pl by (simp add: move_submodule_def)
  moreover have "\<forall>k. k \<noteq> m \<longrightarrow> map_of es' k = (if k = d then None else map_of (build_root st) k)"
    using rest es1 none by auto
  ultimately show ?thesis using tp' nn by auto
qed

lemma move_submodules_ready:
  assumes "third_party (build_root st) m = Some P"
    and "m \<notin> set ds"
    and "distinct ds"
    and "distinct (map normalized_name ds)"
    and "\<forall>d \<in> set ds. is_dir (map_of (build_root st) d)
           \<and> normalized_name d \<noteq> [] \<and> \<not> special (normalized_name d)
           \<and> P (normalized_name d) \<noteq> Some File
           \<and> (fst (rpartition CHR ''-'' d) = ''oneDNN''
                \<longrightarrow> str_replace ''oneDNN'' ''mkldnn'' d \<notin> fst ` set (build_root st))"
    and "\<forall>op. fault e op = None"
  shows "\<exists>es' P'. move_submodules e m ds st = (None, st\<lparr>build_root := es'\<rparr>)
           \<and> third_party es' m = Some P'
           \<and> (\<forall>d \<in> set ds. P' (normalized_name d) = map_of (build_root st) d)
           \<and> (\<forall>s. s \<notin> normalized_name ` set ds \<longrightarrow> P' s = P s)
           \<and> (\<forall>k. k \<noteq> m \<longrightarrow> map_of es' k = (if k \<in> set ds then None else map_of (build_root st) k))"
  using assms
proof (induction ds arbitrary: st P)
  case Nil
  have "move_submodules e m [] st = (None, st\<lparr>build_root := build_root st\<rparr>)" by simp
  with Nil.prems(1) show ?case
    by (intro exI [of _ "build_root st"] exI [of _ P]) simp
next
  case (Cons d ds)
  let ?es = "build_root st"
  from Cons.prems(5) obtain cs where d: "map_of ?es d = Some (Dir cs)"
    by (auto simp: is_dir_def split: option.splits node.splits)
  from Cons.prems have dm: "d \<noteq> m" by auto
  from Cons.prems(5) have sub: "normalized_name d \<noteq> []" "\<not> special (normalized_name d)"
    and nofile: "P (normalized_name d) \<noteq> Some File"
    and free: "fst (rpartition CHR ''-'' d) = ''oneDNN''
                 \<longrightarrow> str_replace ''oneDNN'' ''mkldnn'' d \<notin> fst ` set ?es"
    by simp_all
  from move_submodule_ready [OF Cons.prems(1) d dm sub nofile free Cons.prems(6)]
  obtain es1 where step: "move_submodule e m d st = (None, st\<lparr>build_root := es1\<rparr>)"
    and tp1: "third_party es1 m = Some (P(normalized_name d \<mapsto> Dir cs))"
    and rest1: "\<forall>k. k \<noteq> m \<longrightarrow> map_of es1 k = (if k = d then None else map_of ?es k)"
    by blast
  let ?st1 = "st\<lparr>build_root := es1\<rparr>"
  let ?P1 = "P(normalized_name d \<mapsto> Dir cs)"
  have "map_of ?es m \<noteq> None"
    using Cons.prems(1) by (auto simp: third_party_def split: option.splits)
  then have m_in: "m \<in> fst ` set ?es"
    by (simp add: map_of_eq_None_iff)
  have names1: "fst ` set es1 \<subseteq> fst ` set ?es"
  proof
    fix k assume "k \<in> fst ` set es1"
    then have k: "map_of es1 k \<noteq> None" by (simp add: map_of_eq_None_iff)
    show "k \<in> fst ` set ?es"
    proof (cases "k = m")
      case True
      with m_in show ?thesis by simp
    next
      case False
      with rest1 k have "map_of ?es k \<noteq> None" by (auto split: if_splits)
      then show ?thesis by (simp add: map_of_eq_None_iff)
    qed
  qed
  have p1: "third_party (build_root ?st1) m = Some ?P1" using tp1 by simp
  have p2: "m \<notin> set ds" using Cons.prems(2) by simp
  have p3: "distinct ds" using Cons.prems(3) by simp
  have p4: "distinct (map normalized_name ds)" using Cons.prems(4) by simp
  have nd: "normalized_name d \<notin> normalized_name ` set ds" using Cons.prems(4) by simp
  have dnot: "d \<notin> set ds" using Cons.prems(3) by simp
  have p5: "\<forall>x \<in> set ds. is_dir (map_of (build_root ?st1) x)
           \<and> normalized_name x \<noteq> [] \<and> \<not> special (normalized_name x)
           \<and> ?P1 (normalized_name x) \<noteq> Some File
           \<and> (fst (rpartition CHR ''-'' x) = ''oneDNN''
                \<longrightarrow> str_replace ''oneDNN'' ''mkldnn'' x \<notin> fst ` set (build_root ?st1))"
  proof
    fix x assume x: "x \<in> set ds"
    with p2 dnot have xm: "x \<noteq> m" "x \<noteq> d" by auto
    with rest1 have same: "map_of es1 x = map_of ?es x" by simp
    from x nd have nx: "normalized_name x \<noteq> normalized_name d" by (metis imageI)
    from Cons.prems(5) x have px: "is_dir (map_of ?es x)"
      "normalized_name x \<noteq> []" "\<not> special (normalized_name x)"
      "P (normalized_name x) \<noteq> Some File"
      "fst (rpartition CHR ''-'' x) = ''oneDNN''
          \<longrightarrow> str_replace ''oneDNN'' ''mkldnn'' x \<notin> fst ` set ?es"
      by simp_all
    show "is_dir (map_of (build_root ?st1) x)
           \<and> normalized_name x \<noteq> [] \<and> \<not> special (normalized_name x)
           \<and> ?P1 (normalized_name x) \<noteq> Some File
           \<and> (fst (rpartition CHR ''-'' x) = ''oneDNN''
                \<longrightarrow> str_replace ''oneDNN'' ''mkldnn'' x \<notin> fst ` set (build_root ?st1))"
      using px same nx names1 by auto
  qed
  from Cons.IH [OF p1 p2 p3 p4 p5 Cons.prems(6)]
  obtain es' P' where run: "move_submodules e m ds ?st1 = (None, ?st1\<lparr>build_root := es'\<rparr>)"
    and tp': "third_party es' m = Some P'"
    and moved: "\<forall>x \<in> set ds. P' (normalized_name x) = map_of (build_root ?st1) x"
    and kept: "\<forall>s. s \<notin> normalized_name ` set ds \<longrightarrow> P' s = ?P1 s"
    and rest: "\<forall>k. k \<noteq> m \<longrightarrow> map_of es' k = (if k \<in> set ds then None else map_of (build_root ?st1) k)"
    by blast
  have r1: "move_submodules e m (d # ds) st = (None, st\<lparr>build_root := es'\<rparr>)"
    using step run by simp
  have r3: "\<forall>x \<in> set (d # ds). P' (normalized_name x) = map_of ?es x"
  proof
    fix x assume "x \<in> set (d # ds)"
    then consider "x = d" | "x \<in> set ds" by auto
    then show "P' (normalized_name x) = map_of ?es x"
    proof cases
      case 1
      with kept nd d show ?thesis by simp
    next
      case 2
      with p2 dnot have "x \<noteq> m" "x \<noteq> d" by auto
      with rest1 moved 2 show ?thesis by simp
    qed
  qed
  have r4: "\<forall>s. s \<notin> normalized_name ` set (d # ds) \<longrightarrow> P' s = P s"
    using kept by auto
  have r5: "\<forall>k. k \<noteq> m \<longrightarrow> map_of es' k = (if k \<in> set (d # ds) then None else map_of ?es k)"
    using rest rest1 by auto
  from r1 tp' r3 r4 r5 show ?case by blast
qed

lemma os_rename_error: "os_rename e fs src dst = Inl x \<Longrightarrow> \<exists>msg. x = OSError msg"
  by (auto simp: os_rename_def split: option.splits node.splits if_splits)

lemma remove_dir_error:
  "remove_dir e fs p = (Some x, fs') \<Longrightarrow> \<exists>args. x = EasyBuildError remove_dir_failed args"
  by (auto simp: remove_dir_def Let_def split: option.splits node.splits if_splits)

lemma move_node_error: "move_node fs src dst = (Some x, fs') \<Longrightarrow> \<exists>msg. x = OSError msg"
  by (auto simp: move_node_def split: option.splits node.splits if_splits)

lemma shutil_move_error:
  "shutil_move e fs src dst = (Some x, fs') \<Longrightarrow> \<exists>msg. x = OSError msg"
  by (auto simp: shutil_move_def Let_def split: option.splits node.splits if_splits
      dest: move_node_error)

lemma rename_submodule_fields:
  assumes "rename_submodule e d st = Inr (sub, srcdir, st1)"
  shows "mxnet_src_dir st1 = mxnet_src_dir st" "buildopts st1 = buildopts st"
    "events st1 = events st"
  using assms by (auto simp: rename_submodule_def Let_def split: if_splits sum.splits)

lemma rename_submodule_error:
  "rename_submodule e d st = Inl x \<Longrightarrow> \<exists>msg. x = OSError msg"
  by (auto simp: rename_submodule_def Let_def split: if_splits sum.splits dest: os_rename_error)

lemma place_submodule_fields:
  assumes "place_submodule e m srcdir sub st1 = (r, st')"
  shows "mxnet_src_dir st' = mxnet_src_dir st1"
  using assms
  by (auto simp: place_submodule_def Let_def split: prod.splits option.splits exn.splits)

lemma place_submodule_error:
  assumes "place_submodule e m srcdir sub st1 = (Some x, st')"
  shows "(\<exists>args. x = EasyBuildError remove_dir_failed args)
       \<or> (\<exists>args. x = EasyBuildError move_failed args)"
  using assms
  by (auto simp: place_submodule_def Let_def split: prod.splits option.splits exn.splits
      dest: remove_dir_error shutil_move_error)

lemma move_submodule_src_dir:
  assumes "move_submodule e m d st = (r, st')"
  shows "mxnet_src_dir st' = mxnet_src_dir st"
proof (cases "rename_submodule e d st")
  case (Inl x)
  with assms show ?thesis by (simp add: move_submodule_def)
next
  case (Inr t)
  obtain sub srcdir st1 where t: "t = (sub, srcdir, st1)" by (cases t)
  from assms Inr t have "place_submodule e m srcdir sub st1 = (r, st')"
    by (simp add: move_submodule_def)
  then have "mxnet_src_dir st' = mxnet_src_dir st1" by (rule place_submodule_fields)
  also have "\<dots> = mxnet_src_dir st"
    using Inr t by (auto dest: rename_submodule_fields(1))
  finally show ?thesis .
qed

lemma move_submodule_error:
  assumes "move_submodule e m d st = (Some x, st')"
  shows "(\<exists>msg. x = OSError msg) \<or> (\<exists>args. x = EasyBuildError remove_dir_failed args)
       \<or> (\<exists>args. x = EasyBuildError move_failed args)"
  using assms
  by (auto simp: move_submodule_def split: sum.splits prod.splits
      dest: rename_submodule_error place_submodule_error)

lemma move_submodules_src_dir:
  "move_submodules e m ds st = (r, st') \<Longrightarrow> mxnet_src_dir st' = mxnet_src_dir st"
proof (induction ds arbitrary: st)
  case Nil
  then show ?case by simp
next
  case (Cons d ds)
  obtain r1 st1 where s1: "move_submodule e m d st = (r1, st1)" by (cases "move_submodule e m d st")
  with Cons show ?case
    by (cases r1) (auto dest: move_submodule_src_dir)
qed

lemma move_submodules_error:
  assumes "move_submodules e m ds st = (Some x, st')"
  shows "(\<exists>msg. x = OSError msg) \<or> (\<exists>args. x = EasyBuildError remove_dir_failed args)
       \<or> (\<exists>args. x = EasyBuildError move_failed args)"
  using assms
proof (induction ds arbitrary: st)
  case Nil
  then show ?case by simp
next
  case (Cons d ds)
  obtain r1 st1 where s1: "move_submodule e m d st = (r1, st1)" by (cases "move_submodule e m d st")
  show ?case
  proof (cases r1)
    case None
    with s1 Cons.prems have "move_submodules e m ds st1 = (Some x, st')" by simp
    then show ?thesis by (rule Cons.IH)
  next
    case (Some y)
    with s1 Cons.prems have "x = y" by simp
    with s1 Some show ?thesis using move_submodule_error by blast
  qed
qed

lemma move_submodules_append:
  "move_submodules e m (xs @ ys) st =
     (case move_submodules e m xs st of
        (Some x, st') \<Rightarrow> (Some x, st')
      | (None, st') \<Rightarrow> move_submodules e m ys st')"
  by (induction xs arbitrary: st) (auto split: prod.splits option.splits)

lemma str_replace_set: "set (str_replace old new s) \<subseteq> set s \<union> set new"
proof (induction old new s rule: str_replace.induct)
  case (1 old new)
  then show ?case by auto
next
  case (2 old new c cs)
  show ?case
  proof (cases "old = []")
    case True
    with 2 show ?thesis by auto
  next
    case False
    show ?thesis
    proof (cases "prefix old (c # cs)")
      case True
      have "set (drop (length old) (c # cs)) \<subseteq> set (c # cs)" by (rule set_drop_subset)
      with 2(2) [OF False True] False True show ?thesis by auto
    next
      case np: False
      with 2(3) [OF False np] False show ?thesis by auto
    qed
  qed
qed

lemma rpartition_append: "c \<notin> set t \<Longrightarrow> rpartition c (h @ c # t) = (h, [c], t)"
proof -
  assume c: "c \<notin> set t"
  have "dropWhile (\<lambda>x. x \<noteq> c) (rev t @ c # rev h) = dropWhile (\<lambda>x. x \<noteq> c) (c # rev h)"
    by (rule dropWhile_append2) (use c in auto)
  moreover have "takeWhile (\<lambda>x. x \<noteq> c) (rev t @ c # rev h) = rev t @ takeWhile (\<lambda>x. x \<noteq> c) (c # rev h)"
    by (rule takeWhile_append2) (use c in auto)
  ultimately show ?thesis by (simp add: rpartition_def)
qed

lemma marker_has_hyphen: "fnmatch s ''*mxnet-*'' \<Longrightarrow> CHR ''-'' \<in> set s"
  by (auto simp: fnmatch_marker sublist_def)

lemma onednn_renamed_shape:
  assumes "fst (rpartition CHR ''-'' d) = ''oneDNN''"
  shows "\<exists>t. str_replace ''oneDNN'' ''mkldnn'' d = ''mkldnn-'' @ t \<and> CHR ''-'' \<notin> set t"
proof -
  from rpartition_fst_split [OF assms] obtain t
    where d: "d = ''oneDNN'' @ CHR ''-'' # t" and t: "CHR ''-'' \<notin> set t" by auto
  have "set (str_replace ''oneDNN'' ''mkldnn'' t) \<subseteq> set t \<union> set ''mkldnn''"
    by (rule str_replace_set)
  with t have "CHR ''-'' \<notin> set (str_replace ''oneDNN'' ''mkldnn'' t)" by auto
  moreover from d have "str_replace ''oneDNN'' ''mkldnn'' d
      = ''mkldnn-'' @ str_replace ''oneDNN'' ''mkldnn'' t" by simp
  ultimately show ?thesis by blast
qed

lemma renamed_is_free:
  assumes gl: "glob es ''*mxnet-*'' = [m]"
    and distn: "distinct (map normalized_name (dependencies es m))"
    and d: "d \<in> set (dependencies es m)"
    and one: "fst (rpartition CHR ''-'' d) = ''oneDNN''"
  shows "str_replace ''oneDNN'' ''mkldnn'' d \<notin> fst ` set es"
proof
  let ?d' = "str_replace ''oneDNN'' ''mkldnn'' d"
  assume mem: "?d' \<in> fst ` set es"
  from onednn_renamed_shape [OF one] obtain t
    where t: "?d' = ''mkldnn-'' @ t" "CHR ''-'' \<notin> set t" by blast
  have nn': "normalized_name ?d' = ''mkldnn''"
    using rpartition_append [OF t(2), of "''mkldnn''"] t(1) by (simp add: normalized_name_def)
  from one have nn: "normalized_name d = ''mkldnn''" by (simp add: normalized_name_def)
  from rpartition_fst_split [OF one] have dd: "d \<noteq> ?d'" using t(1) by auto
  have "\<not> fnmatch ?d' ''*mxnet-*''"
  proof
    assume "fnmatch ?d' ''*mxnet-*''"
    then have "fnmatch t ''*mxnet-*''" unfolding t(1) by simp
    then have "CHR ''-'' \<in> set t" by (rule marker_has_hyphen)
    with t(2) show False by simp
  qed
  moreover from gl have "m \<in> set (glob es ''*mxnet-*'')" by simp
  then have "fnmatch m ''*mxnet-*''" by (simp add: glob_def)
  ultimately have "?d' \<noteq> m" by auto
  with mem have d': "?d' \<in> set (dependencies es m)" by (auto simp: dependencies_def)
  from distn have "inj_on normalized_name (set (dependencies es m))"
    by (simp add: distinct_map)
  then have "d = ?d'" by (rule inj_onD) (simp_all add: nn nn' d d')
  with dd show False by simp
qed

lemma extract_step_ready:
  assumes "assembly_ready e (build_root st) m"
  shows "\<exists>es' P P'. extract_step e st = (None, st\<lparr>mxnet_src_dir := Some m, build_root := es'\<rparr>)
           \<and> third_party (build_root st) m = Some P
           \<and> third_party es' m = Some P'
           \<and> (\<forall>d \<in> set (dependencies (build_root st) m).
                 P' (normalized_name d) = map_of (build_root st) d)
           \<and> (\<forall>s. s \<notin> normalized_name ` set (dependencies (build_root st) m) \<longrightarrow> P' s = P s)
           \<and> fst ` set es' = {m}"
proof -
  let ?es = "build_root st"
  let ?ds = "dependencies ?es m"
  let ?st1 = "st\<lparr>mxnet_src_dir := Some m\<rparr>"
  from assms obtain P where nofault: "\<forall>op. fault e op = None"
    and gl: "glob ?es ''*mxnet-*'' = [m]"
    and dist: "distinct (map fst ?es)"
    and distn: "distinct (map normalized_name ?ds)"
    and tp: "third_party ?es m = Some P"
    and deps0: "\<forall>d \<in> set ?ds. is_dir (map_of ?es d)
                 \<and> normalized_name d \<noteq> [] \<and> \<not> special (normalized_name d)
                 \<and> P (normalized_name d) \<noteq> Some File"
    unfolding assembly_ready_def by blast
  have deps: "\<forall>d \<in> set ?ds. is_dir (map_of ?es d)
                 \<and> normalized_name d \<noteq> [] \<and> \<not> special (normalized_name d)
                 \<and> P (normalized_name d) \<noteq> Some File
                 \<and> (fst (rpartition CHR ''-'' d) = ''oneDNN''
                      \<longrightarrow> str_replace ''oneDNN'' ''mkldnn'' d \<notin> fst ` set ?es)"
    using deps0 renamed_is_free [OF gl distn] by blast
  have step: "extract_step e st = move_submodules e m ?ds ?st1"
    using gl by (simp add: extract_step_def dependencies_def Let_def)
  have q1: "third_party (build_root ?st1) m = Some P" using tp by simp
  have q2: "m \<notin> set ?ds" by (simp add: dependencies_def)
  have q3: "distinct ?ds" using dist by (simp add: dependencies_def distinct_map_filter)
  have q5: "\<forall>d \<in> set ?ds. is_dir (map_of (build_root ?st1) d)
                 \<and> normalized_name d \<noteq> [] \<and> \<not> special (normalized_name d)
                 \<and> P (normalized_name d) \<noteq> Some File
                 \<and> (fst (rpartition CHR ''-'' d) = ''oneDNN''
                      \<longrightarrow> str_replace ''oneDNN'' ''mkldnn'' d \<notin> fst ` set (build_root ?st1))"
    using deps by simp
  from move_submodules_ready [OF q1 q2 q3 distn q5 nofault]
  obtain es' P' where run: "move_submodules e m ?ds ?st1 = (None, ?st1\<lparr>build_root := es'\<rparr>)"
    and tp': "third_party es' m = Some P'"
    and moved: "\<forall>d \<in> set ?ds. P' (normalized_name d) = map_of (build_root ?st1) d"
    and kept: "\<forall>s. s \<notin> normalized_name ` set ?ds \<longrightarrow> P' s = P s"
    and rest: "\<forall>k. k \<noteq> m \<longrightarrow> map_of es' k = (if k \<in> set ?ds then None else map_of (build_root ?st1) k)"
    by blast
  have names: "fst ` set es' = {m}"
  proof
    show "fst ` set es' \<subseteq> {m}"
    proof
      fix k assume "k \<in> fst ` set es'"
      then have k: "map_of es' k \<noteq> None" by (simp add: map_of_eq_None_iff)
      show "k \<in> {m}"
      proof (rule ccontr)
        assume "k \<notin> {m}"
        then have km: "k \<noteq> m" by simp
        with rest k have "k \<notin> set ?ds" "map_of ?es k \<noteq> None" by (auto split: if_splits)
        then have "k \<in> fst ` set ?es" by (simp add: map_of_eq_None_iff)
        with km have "k \<in> set ?ds" by (auto simp: dependencies_def)
        with \<open>k \<notin> set ?ds\<close> show False by simp
      qed
    qed
  next
    from tp' have "map_of es' m \<noteq> None"
      by (auto simp: third_party_def split: option.splits)
    then show "{m} \<subseteq> fst ` set es'" by (simp add: map_of_eq_None_iff)
  qed
  from step run tp tp' moved kept names show ?thesis by auto
qed

lemma normalized_name_not_onednn: "normalized_name d \<noteq> ''oneDNN''"
  by (simp add: normalized_name_def Let_def)

text \<open>Unfolding for concrete inputs.\<close>

lemmas eval_defs = extract_step_def glob_def hidden_def dependencies_def move_submodule_def
  rename_submodule_def place_submodule_def remove_dir_def shutil_move_def move_node_def os_rename_def
  rpartition_def basename_def special_def is_dir_def bare_env_def new_easyblock_def Let_def

lemma third_party_lookup:
  "third_party es m = Some P \<Longrightarrow> lookup (Dir es) [m, ''3rdparty'', s] = P s"
  by (auto simp: third_party_def split: option.splits node.splits)

text \<open>
  C2, as amended. In a build directory that is ready for assembly (see
  \<open>assembly_ready\<close>), \<open>extract_step\<close> succeeds and records the main directory;
  afterwards the main directory is the only entry of the build directory, every
  dependency directory is found, with its contents, in \<open>main/3rdparty\<close> under its
  normalized name, the other entries of \<open>main/3rdparty\<close> are as before, and where
  \<open>main/3rdparty\<close> had no entries but placeholders of the dependencies it now has
  as many entries as there are dependencies.
\<close>

theorem assembly_complete:
  assumes "assembly_ready e (build_root st) main"
  shows "fst (extract_step e st) = None
     \<and> mxnet_src_dir (snd (extract_step e st)) = Some main
     \<and> fst ` set (build_root (snd (extract_step e st))) = {main}
     \<and> (\<exists>tp tp'. third_party (build_root st) main = Some tp
           \<and> third_party (build_root (snd (extract_step e st))) main = Some tp'
           \<and> (\<forall>d \<in> set (dependencies (build_root st) main).
                 is_dir (map_of (build_root st) d)
                 \<and> tp' (normalized_name d) = map_of (build_root st) d)
           \<and> (\<forall>s. s \<notin> normalized_name ` set (dependencies (build_root st) main) \<longrightarrow> tp' s = tp s)
           \<and> (dom tp \<subseteq> normalized_name ` set (dependencies (build_root st) main)
                \<longrightarrow> card (dom tp') = length (dependencies (build_root st) main)))"
proof -
  let ?es = "build_root st"
  let ?ds = "dependencies ?es main"
  from extract_step_ready [OF assms] obtain es' P P'
    where run: "extract_step e st = (None, st\<lparr>mxnet_src_dir := Some main, build_root := es'\<rparr>)"
      and tp: "third_party ?es main = Some P"
      and tp': "third_party es' main = Some P'"
      and moved: "\<forall>d \<in> set ?ds. P' (normalized_name d) = map_of ?es d"
      and kept: "\<forall>s. s \<notin> normalized_name ` set ?ds \<longrightarrow> P' s = P s"
      and names: "fst ` set es' = {main}"
    by blast
  from assms tp have dirs: "\<forall>d \<in> set ?ds. is_dir (map_of ?es d)"
    and distn: "distinct (map normalized_name ?ds)"
    unfolding assembly_ready_def by auto
  have count: "card (dom P') = length ?ds" if sub: "dom P \<subseteq> normalized_name ` set ?ds"
  proof -
    have "dom P' = normalized_name ` set ?ds"
    proof
      show "dom P' \<subseteq> normalized_name ` set ?ds"
      proof
        fix s assume "s \<in> dom P'"
        then have s: "P' s \<noteq> None" by auto
        show "s \<in> normalized_name ` set ?ds"
        proof (rule ccontr)
          assume n: "s \<notin> normalized_name ` set ?ds"
          with kept have "P' s = P s" by simp
          with s have "s \<in> dom P" by auto
          with sub n show False by auto
        qed
      qed
    next
      show "normalized_name ` set ?ds \<subseteq> dom P'"
      proof
        fix s assume "s \<in> normalized_name ` set ?ds"
        then obtain d where d: "d \<in> set ?ds" "s = normalized_name d" by auto
        with moved dirs have "is_dir (P' s)" by simp
        then show "s \<in> dom P'" by (auto simp: is_dir_def split: option.splits)
      qed
    qed
    then have "card (dom P') = card (set (map normalized_name ?ds))" by simp
    also have "\<dots> = length (map normalized_name ?ds)" using distn by (rule distinct_card)
    finally show ?thesis by simp
  qed
  from run tp tp' moved kept names dirs count show ?thesis by auto
qed

theorem assembly_complete_witness:
  "assembly_ready bare_env scenario_root ''proj-mxnet-1.9''
   \<and> length (dependencies scenario_root ''proj-mxnet-1.9'') = 2
   \<and> fst (extract_step bare_env (new_easyblock scenario_root)) = None
   \<and> fst ` set (build_root (snd (extract_step bare_env (new_easyblock scenario_root))))
       = {''proj-mxnet-1.9''}
   \<and> assembly_ready bare_env fresh_root ''mxnet-1.9''
   \<and> fst (extract_step bare_env (new_easyblock fresh_root)) = None
   \<and> fst ` set (build_root (snd (extract_step bare_env (new_easyblock fresh_root))))
       = {''mxnet-1.9''}"
proof -
  have r: "assembly_ready bare_env (build_root (new_easyblock scenario_root)) ''proj-mxnet-1.9''"
    by (simp add: assembly_ready_def third_party_def normalized_name_def eval_defs
        scenario_root_def)
  have b: "build_root (new_easyblock scenario_root) = scenario_root"
    by (simp add: new_easyblock_def)
  have l: "length (dependencies scenario_root ''proj-mxnet-1.9'') = 2"
    by (simp add: dependencies_def scenario_root_def)
  have r': "assembly_ready bare_env (build_root (new_easyblock fresh_root)) ''mxnet-1.9''"
    by (simp add: assembly_ready_def third_party_def normalized_name_def eval_defs
        fresh_root_def)
  have b': "build_root (new_easyblock fresh_root) = fresh_root"
    by (simp add: new_easyblock_def)
  from assembly_complete [OF r] assembly_complete [OF r'] r r' b b' l show ?thesis by simp
qed

text \<open>
  C2, as stated, fails when two dependencies have the same normalized name: of
  \<open>ps-lite-1\<close> and \<open>ps-lite-2\<close> only the second is left in \<open>3rdparty\<close>, since the
  destination is removed before each move.
\<close>

theorem assembly_collision_counterexample:
  "length (dependencies collision_root ''mxnet-1.9'') = 2
   \<and> extract_step bare_env (new_easyblock collision_root)
       = (None, (new_easyblock collision_root)
           \<lparr>mxnet_src_dir := Some ''mxnet-1.9'',
            build_root := [(''mxnet-1.9'',
               Dir [(''3rdparty'', Dir [(''ps-lite'', Dir [(''b'', File)])])])]\<rparr>)"
  by (simp add: eval_defs collision_root_def)

lemma glob_member_marker:
  assumes "glob es ''*mxnet-*'' = [m]"
  shows "fnmatch m ''*mxnet-*''"
proof -
  from assms have "m \<in> set (glob es ''*mxnet-*'')" by simp
  then show ?thesis by (simp add: glob_def)
qed

lemma lookup_children: "lookup (Dir (children n)) (c # cs) = lookup n (c # cs)"
  by (cases n) simp_all

lemma lookup_put_same: "lookup (put n p x) p = Some x"
  by (induction p arbitrary: n) (simp_all add: AList.update_conv')

lemma lookup_put_other:
  "\<not> prefix p q \<Longrightarrow> \<not> prefix q p \<Longrightarrow> lookup (put n p x) q = lookup n q"
proof (induction p arbitrary: n q)
  case Nil
  then show ?case by simp
next
  case (Cons c cs)
  from Cons.prems obtain d ds where q: "q = d # ds" by (cases q) auto
  show ?case
  proof (cases "d = c")
    case False
    then show ?thesis unfolding q by (cases n) (simp_all add: AList.update_conv')
  next
    case True
    with Cons.prems q have np: "\<not> prefix cs ds" "\<not> prefix ds cs" by simp_all
    then have ds: "ds \<noteq> []" by auto
    then obtain e es where dse: "ds = e # es" by (cases ds) auto
    show ?thesis unfolding q True
      using Cons.IH [OF np] dse
      by (cases n) (simp_all add: AList.update_conv' split: option.splits)
  qed
qed

lemma lookup_del_same: "p \<noteq> [] \<Longrightarrow> lookup (del n p) p = None"
  by (induction n p rule: del.induct)
     (auto simp: AList.update_conv' AList.delete_conv' split: node.splits option.splits)

lemma lookup_del_other:
  "\<not> prefix p q \<Longrightarrow> \<not> prefix q p \<Longrightarrow> lookup (del n p) q = lookup n q"
proof (induction n p arbitrary: q rule: del.induct)
  case (1 n)
  then show ?case by simp
next
  case (2 n c)
  then obtain d ds where q: "q = d # ds" by (cases q) auto
  with 2 have "d \<noteq> c" by auto
  then show ?case unfolding q
    by (cases n) (simp_all add: AList.delete_conv')
next
  case (3 n c c' cs)
  then obtain d ds where q: "q = d # ds" by (cases q) auto
  show ?case
  proof (cases n)
    case File
    then show ?thesis by simp
  next
    case (Dir es)
    show ?thesis
    proof (cases "map_of es c")
      case None
      with Dir show ?thesis by simp
    next
      case (Some k)
      show ?thesis
      proof (cases "d = c")
        case False
        with Dir Some show ?thesis unfolding q by (simp add: AList.update_conv')
      next
        case True
        with 3(2,3) q have np: "\<not> prefix (c' # cs) ds" "\<not> prefix ds (c' # cs)" by simp_all
        from 3(1) [OF Dir Some np] Dir Some True show ?thesis
          unfolding q by (simp add: AList.update_conv')
      qed
    qed
  qed
qed

lemma move_node_success:
  "move_node fs src dst = (None, fs')
     \<Longrightarrow> \<exists>x. lookup fs src = Some x \<and> fs' = put (del fs src) dst x"
  by (auto simp: move_node_def split: option.splits node.splits if_splits)

lemma move_node_result:
  "move_node fs src dst = (r, fs')
     \<Longrightarrow> fs' = fs \<or> (\<exists>x. fs' = put (del fs src) dst x)"
  by (auto simp: move_node_def split: option.splits node.splits if_splits)

lemma os_rename_success:
  "os_rename e fs src dst = Inr fs' \<Longrightarrow> src \<noteq> dst
     \<Longrightarrow> \<exists>x. lookup fs src = Some x \<and> fs' = put (del fs src) dst x"
  by (auto simp: os_rename_def split: option.splits node.splits if_splits)

lemma remove_dir_plain:
  assumes "remove_dir e fs p = (None, fs2)" "basename p \<noteq> []" "\<not> special (basename p)"
  shows "lookup fs2 p = None \<and> (fs2 = fs \<or> fs2 = del fs p)"
proof -
  from assms(2) have p: "p \<noteq> []" by (auto simp: basename_def)
  from assms p show ?thesis
    by (auto simp: remove_dir_def Let_def lookup_del_same
        split: option.splits node.splits if_splits)
qed

lemma remove_dir_special_fails:
  assumes "special (basename p)" "is_dir (lookup fs (butlast p))"
  shows "fst (remove_dir e fs p) \<noteq> None"
proof -
  from assms(1) have "p \<noteq> []" by (auto simp: basename_def special_def)
  with assms show ?thesis
    by (auto simp: remove_dir_def Let_def special_def split: option.splits)
qed

lemma lookup_put_head: "k \<noteq> m \<Longrightarrow> lookup (put n (m # p) x) (k # q) = lookup n (k # q)"
  by (rule lookup_put_other) simp_all

lemma lookup_del_head: "k \<noteq> m \<Longrightarrow> lookup (del n (m # p)) (k # q) = lookup n (k # q)"
  by (rule lookup_del_other) simp_all

lemma remove_dir_result:
  "remove_dir e fs [m, t, s] = (r, fs')
     \<Longrightarrow> fs' = fs \<or> (\<exists>p. fs' = del fs (m # p)) \<or> (\<exists>p x. fs' = put fs (m # p) x)"
  by (auto simp: remove_dir_def Let_def basename_def
      simp del: put.simps del.simps lookup.simps
      split: option.splits node.splits if_splits)

lemma remove_dir_root_frame:
  assumes "remove_dir e fs [m, t, s] = (r, fs')" "k \<noteq> m"
  shows "lookup fs' (k # q) = lookup fs (k # q)"
  using remove_dir_result [OF assms(1)] assms(2)
  by (auto simp: lookup_put_head lookup_del_head simp del: put.simps del.simps lookup.simps)

lemma shutil_move_plain:
  assumes "shutil_move e fs2 src dst = (None, fs3)" "lookup fs2 dst = None"
    "basename dst \<noteq> []" "\<not> special (basename dst)"
  shows "\<exists>x. lookup fs2 src = Some x \<and> fs3 = put (del fs2 src) dst x"
proof -
  from assms have "move_node fs2 src dst = (None, fs3)"
    by (auto simp: shutil_move_def Let_def is_dir_def
        simp del: put.simps del.simps lookup.simps split: option.splits if_splits)
  then show ?thesis by (rule move_node_success)
qed

lemma move_node_root_frame:
  assumes "move_node fs [s] (m # p) = (r, fs')" "k \<noteq> m" "k \<noteq> s"
  shows "lookup fs' (k # q) = lookup fs (k # q)"
  using move_node_result [OF assms(1)] assms(2,3)
  by (auto simp: lookup_put_head lookup_del_head simp del: put.simps del.simps lookup.simps)

lemma shutil_move_result:
  "shutil_move e fs [s] [m, t, sub] = (r, fs')
     \<Longrightarrow> fs' = fs \<or> (\<exists>p x. fs' = put fs (m # p) x) \<or> (\<exists>p. move_node fs [s] (m # p) = (r, fs'))"
  by (auto simp: shutil_move_def Let_def basename_def
      simp del: put.simps del.simps lookup.simps
      split: option.splits node.splits if_splits)

lemma shutil_move_root_frame:
  assumes "shutil_move e fs [s] [m, t, sub] = (r, fs')" "k \<noteq> m" "k \<noteq> s"
  shows "lookup fs' (k # q) = lookup fs (k # q)"
  using shutil_move_result [OF assms(1)] assms(2,3)
  by (auto simp: lookup_put_head simp del: put.simps del.simps lookup.simps
      dest: move_node_root_frame)

lemma os_rename_result:
  "os_rename e fs src dst = Inr fs'
     \<Longrightarrow> (src = dst \<and> fs' = fs) \<or> (\<exists>x. lookup fs src = Some x \<and> fs' = put (del fs src) dst x)"
  by (auto simp: os_rename_def simp del: put.simps del.simps lookup.simps
      split: option.splits node.splits if_splits)

lemma rename_submodule_cases:
  assumes "rename_submodule e d st = Inr (sub, s, st1)"
  shows "sub = normalized_name d
     \<and> ((fst (rpartition CHR ''-'' d) \<noteq> ''oneDNN'' \<and> s = d \<and> st1 = st)
        \<or> (fst (rpartition CHR ''-'' d) = ''oneDNN'' \<and> s = str_replace ''oneDNN'' ''mkldnn'' d
            \<and> (\<exists>fs1. os_rename e (Dir (build_root st)) [d] [s] = Inr fs1
                  \<and> st1 = st\<lparr>build_root := children fs1\<rparr>)))"
  using assms
  by (auto simp: rename_submodule_def normalized_name_def Let_def split: if_splits sum.splits)

lemma rename_root_frame:
  assumes "rename_submodule e d st = Inr (sub, s, st1)" "k \<noteq> d" "k \<noteq> s"
  shows "lookup (Dir (build_root st1)) (k # q) = lookup (Dir (build_root st)) (k # q)"
proof -
  from rename_submodule_cases [OF assms(1)]
  consider "st1 = st"
    | fs1 where "os_rename e (Dir (build_root st)) [d] [s] = Inr fs1"
        "st1 = st\<lparr>build_root := children fs1\<rparr>"
    by blast
  then show ?thesis
  proof cases
    case 1
    then show ?thesis by simp
  next
    case 2
    have "lookup fs1 (k # q) = lookup (Dir (build_root st)) (k # q)"
      using os_rename_result [OF 2(1)] assms(2,3)
      by (auto simp: lookup_put_head lookup_del_head simp del: put.simps del.simps lookup.simps)
    moreover have "build_root st1 = children fs1" using 2(2) by simp
    ultimately show ?thesis by (simp only: lookup_children)
  qed
qed

lemma place_root_frame:
  assumes "place_submodule e m s sub st1 = (r, st2)" "k \<noteq> m" "k \<noteq> s"
  shows "lookup (Dir (build_root st2)) (k # q) = lookup (Dir (build_root st1)) (k # q)"
proof -
  let ?fs = "Dir (build_root st1)"
  obtain r1 fs1 where rd: "remove_dir e ?fs [m, ''3rdparty'', sub] = (r1, fs1)"
    by (cases "remove_dir e ?fs [m, ''3rdparty'', sub]") auto
  obtain r2 fs3 where sm: "shutil_move e fs1 [s] [m, ''3rdparty'', sub] = (r2, fs3)"
    by (cases "shutil_move e fs1 [s] [m, ''3rdparty'', sub]") auto
  have a: "lookup fs1 (k # q) = lookup ?fs (k # q)"
    using rd assms(2) by (rule remove_dir_root_frame)
  have b: "lookup fs3 (k # q) = lookup fs1 (k # q)"
    using sm assms(2,3) by (rule shutil_move_root_frame)
  from assms(1) rd sm have "build_root st2 = children fs1 \<or> build_root st2 = children fs3"
    by (auto simp: place_submodule_def Let_def split: option.splits exn.splits)
  with a b show ?thesis by (auto simp only: lookup_children)
qed

lemma place_success_plain:
  assumes ok: "place_submodule e m s sub st1 = (None, st2)"
    and sub: "sub \<noteq> []" "\<not> special sub"
    and sm: "s \<noteq> m"
  shows "\<exists>x. lookup (Dir (build_root st1)) [s] = Some x
     \<and> lookup (Dir (build_root st2)) [m, ''3rdparty'', sub] = Some x
     \<and> lookup (Dir (build_root st2)) [s] = None
     \<and> (\<forall>sub'. sub' \<noteq> sub \<longrightarrow>
           lookup (Dir (build_root st2)) [m, ''3rdparty'', sub']
             = lookup (Dir (build_root st1)) [m, ''3rdparty'', sub'])"
proof -
  let ?fs = "Dir (build_root st1)"
  let ?p = "[m, ''3rdparty'', sub]"
  obtain r1 fs2 where rd: "remove_dir e ?fs ?p = (r1, fs2)"
    by (cases "remove_dir e ?fs ?p") auto
  obtain r2 fs3 where mv: "shutil_move e fs2 [s] ?p = (r2, fs3)"
    by (cases "shutil_move e fs2 [s] ?p") auto
  from ok rd mv have r: "r1 = None" "r2 = None" and st2: "build_root st2 = children fs3"
    by (auto simp: place_submodule_def Let_def split: option.splits exn.splits)
  have bn: "basename ?p \<noteq> []" "\<not> special (basename ?p)"
    using sub by (simp_all add: basename_def)
  from remove_dir_plain [OF rd [unfolded r] bn]
  have gone: "lookup fs2 ?p = None" and fs2: "fs2 = ?fs \<or> fs2 = del ?fs ?p" by blast+
  from shutil_move_plain [OF mv [unfolded r] gone bn] obtain x
    where x: "lookup fs2 [s] = Some x" and fs3: "fs3 = put (del fs2 [s]) ?p x" by blast
  have same: "lookup fs2 (s # q) = lookup ?fs (s # q)" for q
    using fs2 sm by (auto simp: lookup_del_head simp del: del.simps lookup.simps)
  have a: "lookup ?fs [s] = Some x" using x same by simp
  have b: "lookup (Dir (build_root st2)) ?p = Some x"
    unfolding st2 lookup_children fs3 by (rule lookup_put_same)
  have c: "lookup (Dir (build_root st2)) [m, ''3rdparty'', sub']
             = lookup ?fs [m, ''3rdparty'', sub']" if "sub' \<noteq> sub" for sub'
  proof -
    have "lookup fs3 [m, ''3rdparty'', sub'] = lookup (del fs2 [s]) [m, ''3rdparty'', sub']"
      unfolding fs3 using that by (intro lookup_put_other) simp_all
    also have "\<dots> = lookup fs2 [m, ''3rdparty'', sub']"
      using sm by (intro lookup_del_head) simp
    also have "\<dots> = lookup ?fs [m, ''3rdparty'', sub']"
    proof -
      have "lookup (del ?fs ?p) [m, ''3rdparty'', sub'] = lookup ?fs [m, ''3rdparty'', sub']"
        using that by (intro lookup_del_other) simp_all
      with fs2 show ?thesis by auto
    qed
    finally show ?thesis unfolding st2 lookup_children .
  qed
  have "lookup fs3 [s] = lookup (del fs2 [s]) [s]"
    unfolding fs3 using sm by (intro lookup_put_head)
  also have "\<dots> = None" by (rule lookup_del_same) simp
  finally have g: "lookup (Dir (build_root st2)) [s] = None"
    unfolding st2 lookup_children .
  from a b c g show ?thesis by blast
qed

lemma renamed_not_main:
  assumes "fst (rpartition CHR ''-'' d) = ''oneDNN''" "fnmatch m ''*mxnet-*''"
  shows "str_replace ''oneDNN'' ''mkldnn'' d \<noteq> m"
proof
  assume eq: "str_replace ''oneDNN'' ''mkldnn'' d = m"
  from onednn_renamed_shape [OF assms(1)] obtain t
    where t: "str_replace ''oneDNN'' ''mkldnn'' d = ''mkldnn-'' @ t" "CHR ''-'' \<notin> set t" by blast
  from assms(2) eq t(1) have "fnmatch (''mkldnn-'' @ t) ''*mxnet-*''" by simp
  then have "fnmatch t ''*mxnet-*''" by simp
  then have "CHR ''-'' \<in> set t" by (rule marker_has_hyphen)
  with t(2) show False by simp
qed

lemma renamed_not_same:
  assumes "fst (rpartition CHR ''-'' d) = ''oneDNN''"
  shows "str_replace ''oneDNN'' ''mkldnn'' d \<noteq> d"
proof -
  from rpartition_fst_split [OF assms] obtain t where "d = ''oneDNN'' @ CHR ''-'' # t" by auto
  moreover from onednn_renamed_shape [OF assms] obtain t'
    where "str_replace ''oneDNN'' ''mkldnn'' d = ''mkldnn-'' @ t'" by blast
  ultimately show ?thesis by auto
qed

lemma move_submodule_split:
  assumes "move_submodule e m d st = (None, st')"
  obtains sub s st1 where "rename_submodule e d st = Inr (sub, s, st1)"
    and "place_submodule e m s sub st1 = (None, st')"
  using assms by (auto simp: move_submodule_def split: sum.splits)

lemma move_submodule_root_frame:
  assumes ok: "move_submodule e m d st = (None, st')"
    and k: "k \<noteq> m" "k \<noteq> d" "\<forall>t. k \<noteq> ''mkldnn-'' @ t"
  shows "lookup (Dir (build_root st')) (k # q) = lookup (Dir (build_root st)) (k # q)"
proof -
  from ok obtain sub s st1 where rn: "rename_submodule e d st = Inr (sub, s, st1)"
    and pl: "place_submodule e m s sub st1 = (None, st')" by (rule move_submodule_split)
  have ks: "k \<noteq> s"
  proof (cases "fst (rpartition CHR ''-'' d) = ''oneDNN''")
    case True
    with rename_submodule_cases [OF rn] have "s = str_replace ''oneDNN'' ''mkldnn'' d" by auto
    with onednn_renamed_shape [OF True] k(3) show ?thesis by auto
  next
    case False
    with rename_submodule_cases [OF rn] k(2) show ?thesis by auto
  qed
  from place_root_frame [OF pl k(1) ks] rename_root_frame [OF rn k(2) ks]
  show ?thesis by simp
qed

lemma move_submodules_root_frame:
  assumes "move_submodules e m ds st = (None, st')"
    and "k \<noteq> m" "k \<notin> set ds" "\<forall>t. k \<noteq> ''mkldnn-'' @ t"
  shows "lookup (Dir (build_root st')) (k # q) = lookup (Dir (build_root st)) (k # q)"
  using assms
proof (induction ds arbitrary: st)
  case Nil
  then show ?case by simp
next
  case (Cons d ds)
  from Cons.prems(1) obtain st1 where one: "move_submodule e m d st = (None, st1)"
    and rest: "move_submodules e m ds st1 = (None, st')"
    by (auto split: prod.splits option.splits)
  from Cons.prems(3) have "k \<noteq> d" "k \<notin> set ds" by auto
  with move_submodule_root_frame [OF one Cons.prems(2) _ Cons.prems(4)]
    Cons.IH [OF rest Cons.prems(2) _ Cons.prems(4)]
  show ?case by simp
qed

lemma proper_step:
  assumes ok: "move_submodule e m d st = (None, st')"
    and dm: "d \<noteq> m" and mm: "fnmatch m ''*mxnet-*''"
    and sub: "normalized_name d \<noteq> []" "\<not> special (normalized_name d)"
  shows "\<exists>x. lookup (Dir (build_root st)) [d] = Some x
     \<and> lookup (Dir (build_root st')) [m, ''3rdparty'', normalized_name d] = Some x
     \<and> lookup (Dir (build_root st')) [d] = None
     \<and> (\<forall>sub'. sub' \<noteq> normalized_name d \<longrightarrow>
           lookup (Dir (build_root st')) [m, ''3rdparty'', sub']
             = lookup (Dir (build_root st)) [m, ''3rdparty'', sub'])"
proof -
  from ok obtain sub0 s st1 where rn: "rename_submodule e d st = Inr (sub0, s, st1)"
    and pl0: "place_submodule e m s sub0 st1 = (None, st')" by (rule move_submodule_split)
  from rename_submodule_cases [OF rn] have s0: "sub0 = normalized_name d" by simp
  note pl = pl0 [unfolded s0]
  show ?thesis
  proof (cases "fst (rpartition CHR ''-'' d) = ''oneDNN''")
    case False
    with rename_submodule_cases [OF rn] have "s = d" "st1 = st" by auto
    with place_success_plain [OF pl sub] dm show ?thesis by simp
  next
    case True
    with rename_submodule_cases [OF rn] obtain fs1
      where s: "s = str_replace ''oneDNN'' ''mkldnn'' d"
        and rnm: "os_rename e (Dir (build_root st)) [d] [s] = Inr fs1"
        and st1: "build_root st1 = children fs1" by auto
    from renamed_not_main [OF True mm] s have sm: "s \<noteq> m" by simp
    from renamed_not_same [OF True] s have sd: "s \<noteq> d" by simp
    from os_rename_result [OF rnm] sd obtain x
      where x: "lookup (Dir (build_root st)) [d] = Some x"
        and fs1: "fs1 = put (del (Dir (build_root st)) [d]) [s] x" by auto
    have "lookup fs1 [s] = Some x" unfolding fs1 by (rule lookup_put_same)
    then have at_s: "lookup (Dir (build_root st1)) [s] = Some x"
      unfolding st1 by (simp only: lookup_children)
    from place_success_plain [OF pl sub sm] obtain y
      where y: "lookup (Dir (build_root st1)) [s] = Some y"
        and landed: "lookup (Dir (build_root st')) [m, ''3rdparty'', normalized_name d] = Some y"
        and others: "\<forall>sub'. sub' \<noteq> normalized_name d \<longrightarrow>
           lookup (Dir (build_root st')) [m, ''3rdparty'', sub']
             = lookup (Dir (build_root st1)) [m, ''3rdparty'', sub']" by blast
    from y at_s have yx: "y = x" by simp
    have fr: "lookup (Dir (build_root st1)) (m # q) = lookup (Dir (build_root st)) (m # q)" for q
      using rn dm [symmetric] sm [symmetric] by (rule rename_root_frame)
    have "lookup fs1 [d] = lookup (del (Dir (build_root st)) [d]) [d]"
      unfolding fs1 using sd by (intro lookup_put_head) simp
    also have "\<dots> = None" by (rule lookup_del_same) simp
    finally have "lookup (Dir (build_root st1)) [d] = None"
      unfolding st1 by (simp only: lookup_children)
    with place_root_frame [OF pl dm sd [symmetric], of "[]"]
    have gone: "lookup (Dir (build_root st')) [d] = None" by simp
    from x landed others fr yx gone show ?thesis by simp
  qed
qed

lemma special_step_fails:
  assumes ok: "move_submodule e m d st = (None, st')"
    and sp: "special (normalized_name d)"
    and dir: "is_dir (lookup (Dir (build_root st)) [m, ''3rdparty''])"
  shows False
proof -
  from ok obtain sub0 s st1 where rn: "rename_submodule e d st = Inr (sub0, s, st1)"
    and pl0: "place_submodule e m s sub0 st1 = (None, st')" by (rule move_submodule_split)
  from sp have "normalized_name d \<noteq> ''mkldnn''" by (auto simp: special_def)
  then have "fst (rpartition CHR ''-'' d) \<noteq> ''oneDNN''" by (auto simp: normalized_name_def)
  with rename_submodule_cases [OF rn] have eqs: "sub0 = normalized_name d" "st1 = st" by auto
  have "fst (remove_dir e (Dir (build_root st)) [m, ''3rdparty'', normalized_name d]) \<noteq> None"
    using sp dir by (intro remove_dir_special_fails) (simp_all add: basename_def)
  with pl0 eqs show False
    by (auto simp: place_submodule_def Let_def split: prod.splits option.splits)
qed

lemma lookup_parent_dir:
  "lookup n [a, b, c] = Some y \<Longrightarrow> is_dir (lookup n [a, b])"
  by (auto simp: is_dir_def split: node.splits option.splits)

lemma later_step:
  assumes ok: "move_submodule e m d st = (None, st')"
    and at: "lookup (Dir (build_root st)) [m, ''3rdparty'', ''mkldnn''] = Some y"
    and nn: "normalized_name d \<noteq> ''mkldnn''" "normalized_name d \<noteq> []"
    and dm: "d \<noteq> m" and mm: "fnmatch m ''*mxnet-*''"
  shows "lookup (Dir (build_root st')) [m, ''3rdparty'', ''mkldnn''] = Some y"
proof (cases "special (normalized_name d)")
  case True
  from at have "is_dir (lookup (Dir (build_root st)) [m, ''3rdparty''])"
    by (rule lookup_parent_dir)
  with special_step_fails [OF ok True] show ?thesis by blast
next
  case False
  from proper_step [OF ok dm mm nn(2) False] nn(1) at show ?thesis by auto
qed

lemma move_submodules_later:
  assumes "move_submodules e m ds st = (None, st')"
    and "lookup (Dir (build_root st)) [m, ''3rdparty'', ''mkldnn''] = Some y"
    and "\<forall>d \<in> set ds. normalized_name d \<noteq> ''mkldnn'' \<and> normalized_name d \<noteq> []"
    and "m \<notin> set ds" and "fnmatch m ''*mxnet-*''"
  shows "lookup (Dir (build_root st')) [m, ''3rdparty'', ''mkldnn''] = Some y"
  using assms
proof (induction ds arbitrary: st)
  case Nil
  then show ?case by simp
next
  case (Cons d ds)
  from Cons.prems(1) obtain st1 where one: "move_submodule e m d st = (None, st1)"
    and rest: "move_submodules e m ds st1 = (None, st')"
    by (auto split: prod.splits option.splits)
  from Cons.prems have d: "normalized_name d \<noteq> ''mkldnn''" "normalized_name d \<noteq> []" "d \<noteq> m"
    by auto
  from later_step [OF one Cons.prems(2) d Cons.prems(5)]
  have "lookup (Dir (build_root st1)) [m, ''3rdparty'', ''mkldnn''] = Some y" .
  from Cons.IH [OF rest this] Cons.prems show ?case by simp
qed

lemma move_submodules_proper_frame:
  assumes "move_submodules e m ds st = (None, st')"
    and "\<forall>d \<in> set ds. normalized_name d \<noteq> [] \<and> \<not> special (normalized_name d)"
    and "m \<notin> set ds" and "fnmatch m ''*mxnet-*''"
    and "s \<notin> normalized_name ` set ds"
  shows "lookup (Dir (build_root st')) [m, ''3rdparty'', s]
           = lookup (Dir (build_root st)) [m, ''3rdparty'', s]"
  using assms
proof (induction ds arbitrary: st)
  case Nil
  then show ?case by simp
next
  case (Cons d ds)
  from Cons.prems(1) obtain st1 where one: "move_submodule e m d st = (None, st1)"
    and rest: "move_submodules e m ds st1 = (None, st')"
    by (auto split: prod.splits option.splits)
  from Cons.prems have d: "d \<noteq> m" "normalized_name d \<noteq> []" "\<not> special (normalized_name d)"
    and sd: "s \<noteq> normalized_name d" by auto
  from proper_step [OF one d(1) Cons.prems(4) d(2,3)] sd
  have "lookup (Dir (build_root st1)) [m, ''3rdparty'', s]
          = lookup (Dir (build_root st)) [m, ''3rdparty'', s]" by auto
  moreover from Cons.IH [OF rest] Cons.prems
  have "lookup (Dir (build_root st')) [m, ''3rdparty'', s]
          = lookup (Dir (build_root st1)) [m, ''3rdparty'', s]" by simp
  ultimately show ?case by simp
qed

text \<open>
  C6, as stated, fails when a later directory takes the place: with \<open>mkldnn-0.9\<close>
  listed after \<open>oneDNN-1.2\<close> the step succeeds and \<open>3rdparty/mkldnn\<close> holds
  the contents of \<open>mkldnn-0.9\<close>; with a directory \<open>extra\<close> (no hyphen) listed
  after it the step succeeds and \<open>3rdparty\<close> itself is what \<open>extra\<close> was.
\<close>

theorem onednn_overwritten_counterexample:
  "extract_step bare_env (new_easyblock overwritten_root)
     = (None, (new_easyblock overwritten_root)
         \<lparr>mxnet_src_dir := Some ''mxnet-1.9'',
          build_root := [(''mxnet-1.9'',
             Dir [(''3rdparty'', Dir [(''mkldnn'', Dir [(''b'', File)])])])]\<rparr>)
   \<and> extract_step bare_env (new_easyblock swallowed_root)
     = (None, (new_easyblock swallowed_root)
         \<lparr>mxnet_src_dir := Some ''mxnet-1.9'',
          build_root := [(''mxnet-1.9'', Dir [(''3rdparty'', Dir [(''b'', File)])])]\<rparr>)"
  by (simp add: eval_defs overwritten_root_def swallowed_root_def)

text \<open>
  C6, as amended. The name \<open>oneDNN-1.2\<close> is normalized to \<open>mkldnn\<close>, and no name
  is normalized to \<open>oneDNN\<close>. When \<open>extract_step\<close> succeeds on a build directory
  that has a directory \<open>oneDNN-1.2\<close>, and no name listed after \<open>oneDNN-1.2\<close> is
  normalized to \<open>mkldnn\<close> or to the empty name, then afterwards that directory, with
  its contents, is \<open>main/3rdparty/mkldnn\<close> and \<open>oneDNN-1.2\<close> is gone from the
  build directory; and when every other directory has a proper normalized name (not
  empty, not \<open>.\<close> or \<open>..\<close>), \<open>main/3rdparty/oneDNN\<close> is as it was before.
\<close>

theorem onednn_lands_at_mkldnn:
  assumes ok: "fst (extract_step e st) = None"
    and gl: "glob (build_root st) ''*mxnet-*'' = [main]"
    and dir: "map_of (build_root st) ''oneDNN-1.2'' = Some (Dir cs)"
    and later: "\<forall>d \<in> set (listed_after ''oneDNN-1.2'' (dependencies (build_root st) main)).
                  normalized_name d \<noteq> ''mkldnn'' \<and> normalized_name d \<noteq> []"
  shows "normalized_name ''oneDNN-1.2'' = ''mkldnn''
     \<and> normalized_name d \<noteq> ''oneDNN''
     \<and> lookup (Dir (build_root (snd (extract_step e st)))) [main, ''3rdparty'', ''mkldnn'']
         = Some (Dir cs)
     \<and> lookup (Dir (build_root (snd (extract_step e st)))) [''oneDNN-1.2''] = None
     \<and> ((\<forall>d \<in> set (dependencies (build_root st) main).
            normalized_name d \<noteq> [] \<and> \<not> special (normalized_name d))
        \<longrightarrow> lookup (Dir (build_root (snd (extract_step e st)))) [main, ''3rdparty'', ''oneDNN'']
              = lookup (Dir (build_root st)) [main, ''3rdparty'', ''oneDNN''])"
proof -
  let ?es = "build_root st"
  let ?ds = "dependencies ?es main"
  let ?st1 = "st\<lparr>mxnet_src_dir := Some main\<rparr>"
  let ?st' = "snd (extract_step e st)"
  have nn: "normalized_name ''oneDNN-1.2'' = ''mkldnn''"
    by (simp add: normalized_name_def rpartition_def)
  from gl have mm: "fnmatch main ''*mxnet-*''" by (rule glob_member_marker)
  moreover have "\<not> fnmatch ''oneDNN-1.2'' ''*mxnet-*''" by simp
  ultimately have ne: "''oneDNN-1.2'' \<noteq> main" by auto
  have step: "extract_step e st = move_submodules e main ?ds ?st1"
    using gl by (simp add: extract_step_def dependencies_def Let_def)
  have "extract_step e st = (fst (extract_step e st), ?st')" by simp
  with ok step have whole: "move_submodules e main ?ds ?st1 = (None, ?st')"
    by metis
  from dir have "''oneDNN-1.2'' \<in> fst ` set ?es"
    by (metis map_of_eq_None_iff option.distinct(1))
  with ne have dep: "''oneDNN-1.2'' \<in> set ?ds" by (auto simp: dependencies_def)
  from split_list_first [OF dep] obtain before after
    where sp: "?ds = before @ ''oneDNN-1.2'' # after" and nb: "''oneDNN-1.2'' \<notin> set before"
    by blast
  have "dropWhile (\<lambda>x. x \<noteq> ''oneDNN-1.2'') (before @ ''oneDNN-1.2'' # after)
          = dropWhile (\<lambda>x. x \<noteq> ''oneDNN-1.2'') (''oneDNN-1.2'' # after)"
    by (rule dropWhile_append2) (use nb in auto)
  then have la: "listed_after ''oneDNN-1.2'' ?ds = after"
    unfolding sp listed_after_def by simp
  have mnot: "main \<notin> set ?ds" by (simp add: dependencies_def)
  with sp have mafter: "main \<notin> set after" by auto
  from later la have lat: "\<forall>d \<in> set after. normalized_name d \<noteq> ''mkldnn'' \<and> normalized_name d \<noteq> []"
    by simp
  with nn have na: "''oneDNN-1.2'' \<notin> set after" by auto
  from whole obtain sa sb where a: "move_submodules e main before ?st1 = (None, sa)"
    and b: "move_submodule e main ''oneDNN-1.2'' sa = (None, sb)"
    and c: "move_submodules e main after sb = (None, ?st')"
    unfolding sp by (auto simp: move_submodules_append split: prod.splits option.splits)
  have shape: "\<forall>t. ''oneDNN-1.2'' \<noteq> ''mkldnn-'' @ t" by simp
  from dir have k0: "lookup (Dir (build_root ?st1)) [''oneDNN-1.2''] = Some (Dir cs)" by simp
  with move_submodules_root_frame [OF a ne nb shape, of "[]"]
  have k1: "lookup (Dir (build_root sa)) [''oneDNN-1.2''] = Some (Dir cs)" by simp
  from proper_step [OF b ne mm] nn k1
  have at: "lookup (Dir (build_root sb)) [main, ''3rdparty'', ''mkldnn''] = Some (Dir cs)"
    and gone: "lookup (Dir (build_root sb)) [''oneDNN-1.2''] = None"
    by (auto simp: special_def)
  from move_submodules_later [OF c at lat mafter mm]
  have r1: "lookup (Dir (build_root ?st')) [main, ''3rdparty'', ''mkldnn''] = Some (Dir cs)" .
  from move_submodules_root_frame [OF c ne na shape, of "[]"] gone
  have r2: "lookup (Dir (build_root ?st')) [''oneDNN-1.2''] = None" by simp
  have r3: "lookup (Dir (build_root ?st')) [main, ''3rdparty'', ''oneDNN'']
              = lookup (Dir ?es) [main, ''3rdparty'', ''oneDNN'']"
    if proper: "\<forall>d \<in> set ?ds. normalized_name d \<noteq> [] \<and> \<not> special (normalized_name d)"
  proof -
    have "''oneDNN'' \<notin> normalized_name ` set ?ds"
      using normalized_name_not_onednn by (metis imageE)
    from move_submodules_proper_frame [OF whole proper mnot mm this] show ?thesis by simp
  qed
  from nn normalized_name_not_onednn r1 r2 r3 show ?thesis by blast
qed

theorem onednn_lands_at_mkldnn_witness:
  "fst (extract_step bare_env (new_easyblock late_root)) = None
   \<and> glob late_root ''*mxnet-*'' = [''mxnet-1.9'']
   \<and> listed_after ''oneDNN-1.2'' (dependencies late_root ''mxnet-1.9'') = [''ps-lite-1'']
   \<and> lookup (Dir (build_root (snd (extract_step bare_env (new_easyblock late_root)))))
        [''mxnet-1.9'', ''3rdparty'', ''mkldnn'']
       = Some (Dir [(''a'', File)])
   \<and> lookup (Dir (build_root (snd (extract_step bare_env (new_easyblock late_root)))))
        [''oneDNN-1.2'']
       = None"
proof -
  have b: "build_root (new_easyblock late_root) = late_root"
    by (simp add: new_easyblock_def)
  have ok: "fst (extract_step bare_env (new_easyblock late_root)) = None"
    by (simp add: eval_defs late_root_def)
  have gl: "glob (build_root (new_easyblock late_root)) ''*mxnet-*'' = [''mxnet-1.9'']"
    by (simp add: new_easyblock_def glob_def hidden_def late_root_def)
  have d: "map_of (build_root (new_easyblock late_root)) ''oneDNN-1.2'' = Some (Dir [(''a'', File)])"
    by (simp add: new_easyblock_def late_root_def)
  have la: "listed_after ''oneDNN-1.2'' (dependencies late_root ''mxnet-1.9'') = [''ps-lite-1'']"
    by (simp add: listed_after_def dependencies_def late_root_def)
  have l: "\<forall>d \<in> set (listed_after ''oneDNN-1.2''
                 (dependencies (build_root (new_easyblock late_root)) ''mxnet-1.9'')).
             normalized_name d \<noteq> ''mkldnn'' \<and> normalized_name d \<noteq> []"
    unfolding b la by (simp add: normalized_name_def rpartition_def)
  from onednn_lands_at_mkldnn [OF ok gl d l] ok gl la b show ?thesis by simp
qed

text \<open>
  C3, as amended. \<open>extract_step\<close> looks at the names of the build directory that
  contain \<open>mxnet-\<close> and do not begin with a dot. When there is not exactly one, it
  raises the error "Failed to find/isolate MXNet source directory" with the names found
  and changes nothing; when there is exactly one, it records that entry as the main
  source directory and does not raise this error (the moves that follow may still fail).
\<close>

theorem main_dir_discovery:
  "(length (filter (\<lambda>n. sublist ''mxnet-'' n \<and> \<not> hidden n) (map fst (build_root st))) \<noteq> 1
      \<longrightarrow> extract_step e st
            = (Some (EasyBuildError isolate_failed
                 [PathsArg (map (\<lambda>n. [n])
                    (filter (\<lambda>n. sublist ''mxnet-'' n \<and> \<not> hidden n) (map fst (build_root st))))]),
               st))
   \<and> (length (filter (\<lambda>n. sublist ''mxnet-'' n \<and> \<not> hidden n) (map fst (build_root st))) = 1
      \<longrightarrow> mxnet_src_dir (snd (extract_step e st))
            = Some (hd (filter (\<lambda>n. sublist ''mxnet-'' n \<and> \<not> hidden n) (map fst (build_root st))))
          \<and> (\<forall>args. fst (extract_step e st) \<noteq> Some (EasyBuildError isolate_failed args)))"
proof (intro conjI impI)
  let ?ms = "filter (\<lambda>n. sublist ''mxnet-'' n \<and> \<not> hidden n) (map fst (build_root st))"
  {
    assume "length ?ms \<noteq> 1"
    then show "extract_step e st
            = (Some (EasyBuildError isolate_failed [PathsArg (map (\<lambda>n. [n]) ?ms)]), st)"
      by (simp add: extract_step_def glob_marker Let_def)
  }
  assume one: "length ?ms = 1"
  let ?st1 = "st\<lparr>mxnet_src_dir := Some (hd ?ms)\<rparr>"
  let ?ds = "filter (\<lambda>d. d \<noteq> hd ?ms) (map fst (build_root st))"
  from one have step: "extract_step e st = move_submodules e (hd ?ms) ?ds ?st1"
    by (simp add: extract_step_def glob_marker Let_def)
  obtain r st' where run: "move_submodules e (hd ?ms) ?ds ?st1 = (r, st')"
    by (cases "move_submodules e (hd ?ms) ?ds ?st1")
  from move_submodules_src_dir [OF run] step run
  show "mxnet_src_dir (snd (extract_step e st)) = Some (hd ?ms)" by simp
  show "\<forall>args. fst (extract_step e st) \<noteq> Some (EasyBuildError isolate_failed args)"
  proof (intro allI notI)
    fix args assume "fst (extract_step e st) = Some (EasyBuildError isolate_failed args)"
    with step run have "move_submodules e (hd ?ms) ?ds ?st1
                          = (Some (EasyBuildError isolate_failed args), st')" by simp
    from move_submodules_error [OF this] show False
      by (auto simp: isolate_failed_def remove_dir_failed_def move_failed_def)
  qed
qed

theorem main_dir_discovery_witness:
  "length (filter (\<lambda>n. sublist ''mxnet-'' n \<and> \<not> hidden n)
       (map fst (build_root (new_easyblock scenario_root)))) = 1
   \<and> mxnet_src_dir (snd (extract_step bare_env (new_easyblock scenario_root)))
       = Some ''proj-mxnet-1.9''
   \<and> length (filter (\<lambda>n. sublist ''mxnet-'' n \<and> \<not> hidden n)
       (map fst (build_root (new_easyblock [(''mxnet'', Dir []), (''oneDNN-2.6'', Dir [])])))) \<noteq> 1
   \<and> fst (extract_step bare_env (new_easyblock [(''mxnet'', Dir []), (''oneDNN-2.6'', Dir [])]))
       = Some (EasyBuildError isolate_failed [PathsArg []])"
proof -
  have f1: "filter (\<lambda>n. sublist ''mxnet-'' n \<and> \<not> hidden n)
       (map fst (build_root (new_easyblock scenario_root))) = [''proj-mxnet-1.9'']"
    by (simp add: fnmatch_marker [symmetric] hidden_def new_easyblock_def scenario_root_def)
  have f2: "filter (\<lambda>n. sublist ''mxnet-'' n \<and> \<not> hidden n)
       (map fst (build_root (new_easyblock [(''mxnet'', Dir []), (''oneDNN-2.6'', Dir [])]))) = []"
    by (simp add: fnmatch_marker [symmetric] hidden_def new_easyblock_def)
  from main_dir_discovery [of "new_easyblock scenario_root" bare_env]
    main_dir_discovery [of "new_easyblock [(''mxnet'', Dir []), (''oneDNN-2.6'', Dir [])]" bare_env]
  show ?thesis unfolding f1 f2 by simp
qed

text \<open>
  C3, as stated, fails for a name that contains \<open>mxnet-\<close> and begins with a dot:
  \<open>glob\<close> does not report it, so a build directory whose only entry is
  \<open>.mxnet-1.0\<close> has one entry with the marker and yet the step fails.
\<close>

theorem hidden_main_dir_counterexample:
  "sublist ''mxnet-'' ''.mxnet-1.0''
   \<and> extract_step bare_env (new_easyblock [(''.mxnet-1.0'', Dir [])])
       = (Some (EasyBuildError isolate_failed [PathsArg []]),
          new_easyblock [(''.mxnet-1.0'', Dir [])])"
proof -
  have "sublist ''mxnet-'' ''.mxnet-1.0''"
    by (simp add: fnmatch_marker [symmetric])
  then show ?thesis by (simp add: eval_defs)
qed

lemma shutil_move_failure_tree:
  assumes "shutil_move e fs src dst = (Some x, fs')" "basename dst \<noteq> ''..''"
  shows "fs' = fs"
proof -
  have "move_node fs a b = (Some y, fs'') \<Longrightarrow> fs'' = fs" for a b y fs''
    by (auto simp: move_node_def split: option.splits node.splits if_splits)
  with assms show ?thesis
    by (auto simp: shutil_move_def Let_def
        simp del: put.simps del.simps lookup.simps
        split: option.splits node.splits if_splits)
qed

text \<open>
  C4. When the move of a dependency directory fails, after the directories before it
  have been moved and its own destination has been cleared, \<open>extract_step\<close> raises
  "Failed to move ... to ...: ..." with the two paths and the error of the filesystem.
  The state is the one that the failed move leaves, which is the one in which the move
  was attempted unless the destination ends in \<open>..\<close>: the move is not tried again,
  and the directories after it are not touched.
\<close>

theorem move_failure_is_fatal:
  assumes "glob (build_root st) ''*mxnet-*'' = [main]"
    and "dependencies (build_root st) main = before @ d # rest"
    and "move_submodules e main before (st\<lparr>mxnet_src_dir := Some main\<rparr>) = (None, st2)"
    and "rename_submodule e d st2 = Inr (submodule, srcdir, st3)"
    and "remove_dir e (Dir (build_root st3)) [main, ''3rdparty'', submodule] = (None, fs)"
    and "shutil_move e fs [srcdir] [main, ''3rdparty'', submodule] = (Some x, fs')"
  shows "\<exists>err. x = OSError err
     \<and> extract_step e st
         = (Some (EasyBuildError move_failed
                    [PathArg [srcdir], PathArg [main, ''3rdparty'', submodule], ErrArg err]),
            st3\<lparr>build_root := children fs'\<rparr>)
     \<and> (submodule \<noteq> ''..'' \<longrightarrow> fs' = fs)"
proof -
  from shutil_move_error [OF assms(6)] obtain err where x: "x = OSError err" by blast
  have same: "submodule \<noteq> ''..'' \<longrightarrow> fs' = fs"
    using shutil_move_failure_tree [OF assms(6)] by (simp add: basename_def)
  have place: "place_submodule e main srcdir submodule st3
     = (Some (EasyBuildError move_failed
                [PathArg [srcdir], PathArg [main, ''3rdparty'', submodule], ErrArg err]),
        st3\<lparr>build_root := children fs'\<rparr>)"
    using assms(5,6) x by (simp add: place_submodule_def)
  have turn: "move_submodule e main d st2
     = (Some (EasyBuildError move_failed
                [PathArg [srcdir], PathArg [main, ''3rdparty'', submodule], ErrArg err]),
        st3\<lparr>build_root := children fs'\<rparr>)"
    using assms(4) place by (simp add: move_submodule_def)
  have "extract_step e st
          = move_submodules e main (before @ d # rest) (st\<lparr>mxnet_src_dir := Some main\<rparr>)"
    using assms(1,2) by (simp add: extract_step_def dependencies_def Let_def)
  also have "\<dots> = move_submodules e main (d # rest) st2"
    using assms(3) by (simp add: move_submodules_append)
  also have "\<dots> = (Some (EasyBuildError move_failed
                [PathArg [srcdir], PathArg [main, ''3rdparty'', submodule], ErrArg err]),
        st3\<lparr>build_root := children fs'\<rparr>)"
    using turn by simp
  finally show ?thesis using x same by blast
qed

theorem move_failure_is_fatal_witness:
  "extract_step
     (bare_env\<lparr>fault := (\<lambda>op. if op = OpMove [''ps-lite-2''] [''mxnet-1.9'', ''3rdparty'', ''ps-lite'']
                             then Some ''EACCES'' else None)\<rparr>)
     (new_easyblock (collision_root @ [(''tvm-0.7'', Dir [])]))
   = (Some (EasyBuildError move_failed
              [PathArg [''ps-lite-2''], PathArg [''mxnet-1.9'', ''3rdparty'', ''ps-lite''],
               ErrArg ''EACCES'']),
      (new_easyblock (collision_root @ [(''tvm-0.7'', Dir [])]))
        \<lparr>mxnet_src_dir := Some ''mxnet-1.9'',
         build_root := [(''mxnet-1.9'', Dir [(''3rdparty'', Dir [])]),
                        (''ps-lite-2'', Dir [(''b'', File)]),
                        (''tvm-0.7'', Dir [])]\<rparr>)"
proof -
  let ?e = "bare_env\<lparr>fault := (\<lambda>op. if op = OpMove [''ps-lite-2''] [''mxnet-1.9'', ''3rdparty'', ''ps-lite'']
                             then Some ''EACCES'' else None)\<rparr>"
  let ?st = "new_easyblock (collision_root @ [(''tvm-0.7'', Dir [])])"
  let ?st2 = "?st\<lparr>mxnet_src_dir := Some ''mxnet-1.9'',
         build_root := [(''mxnet-1.9'', Dir [(''3rdparty'', Dir [(''ps-lite'', Dir [(''a'', File)])])]),
                        (''ps-lite-2'', Dir [(''b'', File)]),
                        (''tvm-0.7'', Dir [])]\<rparr>"
  let ?fs = "Dir [(''mxnet-1.9'', Dir [(''3rdparty'', Dir [])]),
                  (''ps-lite-2'', Dir [(''b'', File)]),
                  (''tvm-0.7'', Dir [])]"
  have h1: "glob (build_root ?st) ''*mxnet-*'' = [''mxnet-1.9'']"
    by (simp add: eval_defs collision_root_def)
  have h2: "dependencies (build_root ?st) ''mxnet-1.9'' = [''ps-lite-1''] @ ''ps-lite-2'' # [''tvm-0.7'']"
    by (simp add: eval_defs collision_root_def)
  have h3: "move_submodules ?e ''mxnet-1.9'' [''ps-lite-1''] (?st\<lparr>mxnet_src_dir := Some ''mxnet-1.9''\<rparr>)
              = (None, ?st2)"
    by (simp add: eval_defs collision_root_def)
  have h4: "rename_submodule ?e ''ps-lite-2'' ?st2 = Inr (''ps-lite'', ''ps-lite-2'', ?st2)"
    by (simp add: eval_defs)
  have h5: "remove_dir ?e (Dir (build_root ?st2)) [''mxnet-1.9'', ''3rdparty'', ''ps-lite''] = (None, ?fs)"
    by (simp add: eval_defs)
  have h6: "shutil_move ?e ?fs [''ps-lite-2''] [''mxnet-1.9'', ''3rdparty'', ''ps-lite'']
              = (Some (OSError ''EACCES''), ?fs)"
    by (simp add: eval_defs)
  from move_failure_is_fatal [OF h1 h2 h3 h4 h5 h6] show ?thesis by simp
qed




subsection \<open>The extensions and the sanity check\<close>

text \<open>
  C8. The switch \<open>install_r_ext\<close> is off by default. With the switch off,
  \<open>extensions_step\<close> enters the Python sources and runs the Python installer (prerun,
  run, postrun) and does nothing else: no file is written and the R installer is not
  run. \<open>sanity_check_step\<close> does not look at the switch: once the parent's check, the
  fake module and the check of the Python bindings have passed, the check of the R
  bindings is run, and the step fails when that check fails.
\<close>

theorem r_extension_disabled:
  assumes "\<not> cfg_install_r_ext st"
    and "mxnet_src_dir st = Some main"
    and "super_sanity_check c = None"
    and "load_fake_module c = None"
    and "py_sanity_check c"
  shows "install_r_ext_default = False
     \<and> extensions_step c st
         = (None, st\<lparr>events := events st @ [ChangeDir [main, ''python''], PyPrerun, PyRun, PyPostrun]\<rparr>)
     \<and> (\<forall>f txt. WriteFile f txt \<notin> set (events (snd (extensions_step c st))) - set (events st))
     \<and> RRun \<notin> set (events (snd (extensions_step c st))) - set (events st)
     \<and> RSanity (str_lower (name c)) \<in> set (events (snd (sanity_check_step c st)))
     \<and> fst (sanity_check_step c st)
         = (if r_sanity_check c then None else Some (EasyBuildError r_sanity_failed []))"
  using assms
  by (auto simp: install_r_ext_default_def extensions_step_def sanity_check_step_def Let_def)

theorem r_extension_disabled_witness:
  "\<not> cfg_install_r_ext ((new_easyblock scenario_root)\<lparr>mxnet_src_dir := Some ''proj-mxnet-1.9''\<rparr>)
   \<and> events (snd (extensions_step
        \<lparr>name = ''MXNet'', installdir = ''/opt/mxnet'', shared_lib_ext = ''so'',
         super_sanity_check = None, load_fake_module = None, py_sanity_check = True,
         r_sanity_check = False, install_tree = Dir [], all_pylibdirs = [],
         super_module_extra = [], prepend_paths = (\<lambda>k ps. k)\<rparr>
        ((new_easyblock scenario_root)\<lparr>mxnet_src_dir := Some ''proj-mxnet-1.9''\<rparr>)))
       = [ChangeDir [''proj-mxnet-1.9'', ''python''], PyPrerun, PyRun, PyPostrun]
   \<and> sanity_check_step
        \<lparr>name = ''MXNet'', installdir = ''/opt/mxnet'', shared_lib_ext = ''so'',
         super_sanity_check = None, load_fake_module = None, py_sanity_check = True,
         r_sanity_check = False, install_tree = Dir [], all_pylibdirs = [],
         super_module_extra = [], prepend_paths = (\<lambda>k ps. k)\<rparr>
        ((new_easyblock scenario_root)\<lparr>mxnet_src_dir := Some ''proj-mxnet-1.9''\<rparr>)
       = (Some (EasyBuildError r_sanity_failed []),
          (new_easyblock scenario_root)
            \<lparr>mxnet_src_dir := Some ''proj-mxnet-1.9'',
             events := [SuperSanity [''lib/libmxnet.a'', ''lib/libmxnet.so''] [],
                        LoadFakeModule, PySanity, RSanity ''mxnet'']\<rparr>)"
proof -
  let ?c = "\<lparr>name = ''MXNet'', installdir = ''/opt/mxnet'', shared_lib_ext = ''so'',
         super_sanity_check = None, load_fake_module = None, py_sanity_check = True,
         r_sanity_check = False, install_tree = Dir [], all_pylibdirs = [],
         super_module_extra = [], prepend_paths = (\<lambda>k ps. k)\<rparr>"
  let ?st = "(new_easyblock scenario_root)\<lparr>mxnet_src_dir := Some ''proj-mxnet-1.9''\<rparr>"
  have h1: "\<not> cfg_install_r_ext ?st"
    by (simp add: new_easyblock_def install_r_ext_default_def)
  have h2: "mxnet_src_dir ?st = Some ''proj-mxnet-1.9''" by simp
  have h3: "super_sanity_check ?c = None" "load_fake_module ?c = None" "py_sanity_check ?c"
    by simp_all
  have ev: "events ?st = []" by (simp add: new_easyblock_def)
  have sc: "sanity_check_step ?c ?st
       = (Some (EasyBuildError r_sanity_failed []),
          ?st\<lparr>events := [SuperSanity [''lib/libmxnet.a'', ''lib/libmxnet.so''] [],
                        LoadFakeModule, PySanity, RSanity ''mxnet'']\<rparr>)"
    by (simp add: sanity_check_step_def new_easyblock_def str_lower_def char_lower_def Let_def)
  from r_extension_disabled [OF h1 h2 h3] h1 ev sc show ?thesis by simp
qed

subsection \<open>\<open>make_module_extra\<close>\<close>

text \<open>A candidate is used when it exists and has at least one entry.\<close>

lemma pythonpath_lines_dirs:
  assumes "\<forall>p \<in> set ps. lookup (install_tree c) p \<noteq> Some File"
  shows "pythonpath_lines c ps
     = Inr (concat (map (\<lambda>p. prepend_paths c ''PYTHONPATH'' [path_string p])
              (filter (\<lambda>p. \<exists>es. lookup (install_tree c) p = Some (Dir es) \<and> es \<noteq> []) ps)))"
  using assms
proof (induction ps)
  case Nil
  then show ?case by simp
next
  case (Cons p ps)
  then have ih: "pythonpath_lines c ps
     = Inr (concat (map (\<lambda>p. prepend_paths c ''PYTHONPATH'' [path_string p])
              (filter (\<lambda>p. \<exists>es. lookup (install_tree c) p = Some (Dir es) \<and> es \<noteq> []) ps)))"
    by simp
  from Cons.prems have nf: "lookup (install_tree c) p \<noteq> Some File" by simp
  show ?case
  proof (cases "lookup (install_tree c) p")
    case None
    with ih show ?thesis by simp
  next
    case (Some n)
    with nf obtain es where "n = Dir es" by (cases n) auto
    with Some ih show ?thesis by simp
  qed
qed

text \<open>
  C9. When no candidate directory of the Python installer is a regular file,
  \<open>make_module_extra\<close> returns the parent's text, followed by one statement that
  prepends \<open>PYTHONPATH\<close> for each candidate that exists and has at least one entry (and
  for no other candidate), in the order of the candidates, followed by the statement
  that prepends \<open>R_LIBS\<close> with the installation root.
\<close>

theorem module_extra_paths:
  assumes "\<forall>p \<in> set (all_pylibdirs c). lookup (install_tree c) p \<noteq> Some File"
  shows "make_module_extra c
     = Inr (super_module_extra c
            @ concat (map (\<lambda>p. prepend_paths c ''PYTHONPATH'' [path_string p])
                (filter (\<lambda>p. \<exists>es. lookup (install_tree c) p = Some (Dir es) \<and> es \<noteq> [])
                   (all_pylibdirs c)))
            @ prepend_paths c ''R_LIBS'' [[]])"
  using pythonpath_lines_dirs [OF assms] by (simp add: make_module_extra_def)

theorem module_extra_paths_witness:
  "make_module_extra
     \<lparr>name = ''MXNet'', installdir = ''/opt/mxnet'', shared_lib_ext = ''so'',
      super_sanity_check = None, load_fake_module = None, py_sanity_check = True,
      r_sanity_check = True,
      install_tree = Dir [(''lib'', Dir [(''python3.9'', Dir [(''site-packages'',
                             Dir [(''mxnet'', Dir [])])])]),
                          (''lib64'', Dir [(''python3.9'', Dir [(''site-packages'', Dir [])])])],
      all_pylibdirs = [[''lib'', ''python3.9'', ''site-packages''],
                       [''lib64'', ''python3.9'', ''site-packages''],
                       [''lib'', ''python3.8'', ''site-packages'']],
      super_module_extra = ''# parent; '',
      prepend_paths = (\<lambda>k ps. ''prepend '' @ k @ '' '' @ concat ps @ ''; '')\<rparr>
   = Inr ''# parent; prepend PYTHONPATH lib/python3.9/site-packages; prepend R_LIBS ; ''"
proof -
  let ?c = "\<lparr>name = ''MXNet'', installdir = ''/opt/mxnet'', shared_lib_ext = ''so'',
      super_sanity_check = None, load_fake_module = None, py_sanity_check = True,
      r_sanity_check = True,
      install_tree = Dir [(''lib'', Dir [(''python3.9'', Dir [(''site-packages'',
                             Dir [(''mxnet'', Dir [])])])]),
                          (''lib64'', Dir [(''python3.9'', Dir [(''site-packages'', Dir [])])])],
      all_pylibdirs = [[''lib'', ''python3.9'', ''site-packages''],
                       [''lib64'', ''python3.9'', ''site-packages''],
                       [''lib'', ''python3.8'', ''site-packages'']],
      super_module_extra = ''# parent; '',
      prepend_paths = (\<lambda>k ps. ''prepend '' @ k @ '' '' @ concat ps @ ''; '')\<rparr>"
  have h: "\<forall>p \<in> set (all_pylibdirs ?c). lookup (install_tree ?c) p \<noteq> Some File"
    by simp
  from module_extra_paths [OF h] show ?thesis
    by (simp add: path_string_def os_path_join_def)
qed

end
